theory Spec2Isabelle
  imports Main
begin

section \<open>Python values used by ipums\_data\_prep.py\<close>

text \<open>
  The script is Python 2: strings are byte strings, so \<open>string\<close> (a list of
  8-bit characters) is the string type of the source. Exceptions that the script never
  catches end the run; they are the \<open>Inl\<close> results of the model.
\<close>

datatype error =
    AttributeError | IndexError | KeyError | UnboundLocalError
  | ValueError | TypeError | IOError

abbreviation TAB :: char where "TAB \<equiv> CHR 0x09"
abbreviation NL :: char where "NL \<equiv> CHR 0x0A"
abbreviation DQ :: char where "DQ \<equiv> CHR 0x22"
abbreviation BSL :: char where "BSL \<equiv> CHR 0x5C"

text \<open>The character classes \<open>\s\<close>, \<open>\d\<close> and \<open>\w\<close> of the \<open>re\<close> module on byte strings
  (no LOCALE or UNICODE flag); \<open>is_space\<close> is also the set that \<open>str.strip()\<close> removes.\<close>

definition is_space :: "char \<Rightarrow> bool" where
  "is_space c = (c \<in> set [CHR '' '', TAB, NL, CHR 0x0D, CHR 0x0B, CHR 0x0C])"

definition is_digit :: "char \<Rightarrow> bool" where
  "is_digit c = (let n = (of_char c :: nat) in 48 \<le> n \<and> n \<le> 57)"

definition is_word :: "char \<Rightarrow> bool" where
  "is_word c = (let n = (of_char c :: nat) in
     (48 \<le> n \<and> n \<le> 57) \<or> (65 \<le> n \<and> n \<le> 90) \<or> (97 \<le> n \<and> n \<le> 122) \<or> n = 95)"

text \<open>\<open>s.strip()\<close>\<close>

definition strip :: "string \<Rightarrow> string" where
  "strip s = rev (dropWhile is_space (rev (dropWhile is_space s)))"

text \<open>\<open>s[lo:hi]\<close> with Python's treatment of negative and out-of-range bounds; \<open>None\<close>
  is an omitted bound. A slice never raises.\<close>

definition clamp_index :: "nat \<Rightarrow> int \<Rightarrow> nat" where
  "clamp_index n i = (if i < 0 then nat (max (i + int n) 0) else min (nat i) n)"

definition py_slice :: "'a list \<Rightarrow> int option \<Rightarrow> int option \<Rightarrow> 'a list" where
  "py_slice s lo hi =
     (let n = length s;
          i = (case lo of None \<Rightarrow> 0 | Some a \<Rightarrow> clamp_index n a);
          j = (case hi of None \<Rightarrow> n | Some b \<Rightarrow> clamp_index n b)
      in take (j - i) (drop i s))"

text \<open>\<open>int(s)\<close> on a string: surrounding whitespace, an optional sign, then one or more
  decimal digits; anything else is a \<open>ValueError\<close> (in particular the empty string).\<close>

definition digit_val :: "char \<Rightarrow> nat" where
  "digit_val c = of_char c - 48"

definition dec_value :: "string \<Rightarrow> nat" where
  "dec_value ds = foldl (\<lambda>a c. 10 * a + digit_val c) 0 ds"

definition py_int :: "string \<Rightarrow> error + int" where
  "py_int s =
     (let t = strip s;
          neg = (t \<noteq> [] \<and> hd t = CHR ''-'');
          ds = (if t \<noteq> [] \<and> (hd t = CHR ''-'' \<or> hd t = CHR ''+'') then tl t else t)
      in if ds \<noteq> [] \<and> list_all is_digit ds
         then Inr (if neg then - int (dec_value ds) else int (dec_value ds))
         else Inl ValueError)"

text \<open>\<open>s.isdigit()\<close>\<close>

definition isdigit :: "string \<Rightarrow> bool" where
  "isdigit s = (s \<noteq> [] \<and> list_all is_digit s)"

text \<open>\<open>str(n)\<close> for an integer\<close>

fun str_nat :: "nat \<Rightarrow> string" where
  "str_nat n =
     (if n < 10 then [''0123456789'' ! n]
      else str_nat (n div 10) @ [''0123456789'' ! (n mod 10)])"

declare str_nat.simps [simp del]

definition py_str :: "int \<Rightarrow> string" where
  "py_str i = (if i < 0 then CHR ''-'' # str_nat (nat (- i)) else str_nat (nat i))"

text \<open>\<open>s.replace(old, new)\<close>: every non-overlapping occurrence, left to right.\<close>

function str_replace :: "string \<Rightarrow> string \<Rightarrow> string \<Rightarrow> string" where
  "str_replace old new s =
     (if old = [] then new @ concat (map (\<lambda>c. c # new) s)
      else if s = [] then []
      else if take (length old) s = old
        then new @ str_replace old new (drop (length old) s)
      else hd s # str_replace old new (tl s))"
  by pat_completeness auto
termination
  by (relation "measure (\<lambda>(old, new, s). length s)") auto

declare str_replace.simps [simp del]

text \<open>\<open>sep.join(xs)\<close>\<close>

fun join :: "string \<Rightarrow> string list \<Rightarrow> string" where
  "join sep [] = []"
| "join sep [x] = x"
| "join sep (x # y # ys) = x @ sep @ join sep (y # ys)"

section \<open>Regular expressions of the script\<close>

text \<open>
  Each pattern of the source is written out as the matcher it denotes. All repetitions
  in these patterns are greedy, and each is followed by something its own character
  class excludes (or by optional items only), so giving back characters never turns a
  failed match into a successful one; the one exception is \<open>(.+)"\<close>, which ends at
  the last double quote of the line and is written out in \<open>quoted\<close>.
\<close>

text \<open>\<open>re.search(literal, line)\<close>\<close>

fun search_lit :: "string \<Rightarrow> string \<Rightarrow> bool" where
  "search_lit pat [] = (pat = [])"
| "search_lit pat (c # cs) = (take (length pat) (c # cs) = pat \<or> search_lit pat cs)"

text \<open>\<open>re.search\<close> for a pattern given as a matcher anchored at the start of its
  argument: the leftmost position where it matches.\<close>

fun re_search :: "(string \<Rightarrow> 'a option) \<Rightarrow> string \<Rightarrow> 'a option" where
  "re_search m [] = m []"
| "re_search m (c # cs) = (case m (c # cs) of Some g \<Rightarrow> Some g | None \<Rightarrow> re_search m cs)"

text \<open>A literal prefix; an optional single character (\<open>c?\<close>).\<close>

definition lit :: "string \<Rightarrow> string \<Rightarrow> string option" where
  "lit p s = (if take (length p) s = p then Some (drop (length p) s) else None)"

definition opt_char :: "char \<Rightarrow> string \<Rightarrow> string" where
  "opt_char c s = (case s of [] \<Rightarrow> [] | x # r \<Rightarrow> if x = c then r else s)"

text \<open>\<open>"(.+)"\<close> at the start of \<open>s\<close>: an opening quote, then as much of the line
  (\<open>.\<close> excludes the newline) as still leaves a closing quote, at least one character.\<close>

definition quoted :: "string \<Rightarrow> string option" where
  "quoted s =
     (case s of [] \<Rightarrow> None
      | x # r \<Rightarrow>
          if x = DQ then
            (let run = takeWhile (\<lambda>c. c \<noteq> NL) r;
                 g = rev (drop 1 (dropWhile (\<lambda>c. c \<noteq> DQ) (rev run)))
             in if g = [] then None else Some g)
          else None)"

text \<open>\<open>\s*/record\<close> and \<open>\s*/record\s*\=\s*(\d+)\-?(\d*)\<close>, anchored.\<close>

definition re_slash_record :: "string \<Rightarrow> unit option" where
  "re_slash_record s = map_option (\<lambda>_. ()) (lit ''/record'' (dropWhile is_space s))"

definition re_record_range :: "string \<Rightarrow> (string \<times> string) option" where
  "re_record_range s =
     (case lit ''/record'' (dropWhile is_space s) of
        None \<Rightarrow> None
      | Some r1 \<Rightarrow>
          (case lit ''='' (dropWhile is_space r1) of
             None \<Rightarrow> None
           | Some r2 \<Rightarrow>
               (let r3 = dropWhile is_space r2;
                    g1 = takeWhile is_digit r3;
                    r4 = opt_char CHR ''-'' (dropWhile is_digit r3);
                    g2 = takeWhile is_digit r4
                in if g1 = [] then None else Some (g1, g2))))"

text \<open>\<open>record type\s+\"?(\w+)\"?\<close>, anchored.\<close>

definition re_record_type :: "string \<Rightarrow> string option" where
  "re_record_type s =
     (case lit ''record type'' s of
        None \<Rightarrow> None
      | Some r1 \<Rightarrow>
          if takeWhile is_space r1 = [] then None
          else (let g = takeWhile is_word (opt_char DQ (dropWhile is_space r1))
                in if g = [] then None else Some g))"

text \<open>\<open>re.match("\s*\.", line)\<close>\<close>

definition re_period :: "string \<Rightarrow> bool" where
  "re_period line = (case dropWhile is_space line of [] \<Rightarrow> False | c # _ \<Rightarrow> c = CHR ''.'')"

text \<open>\<open>re.match("\s*(\w+)\s+(\d+)\-?(\d*)\s*\(?(\w*)\)?", line)\<close>: the four groups.\<close>

definition re_var_decl :: "string \<Rightarrow> (string \<times> string \<times> string \<times> string) option" where
  "re_var_decl line =
     (let s1 = dropWhile is_space line;
          g1 = takeWhile is_word s1;
          s2 = dropWhile is_word s1;
          s3 = dropWhile is_space s2;
          g2 = takeWhile is_digit s3;
          s4 = opt_char CHR ''-'' (dropWhile is_digit s3);
          g3 = takeWhile is_digit s4;
          s5 = opt_char CHR ''('' (dropWhile is_space (dropWhile is_digit s4));
          g4 = takeWhile is_word s5
      in if g1 = [] \<or> takeWhile is_space s2 = [] \<or> g2 = [] then None
         else Some (g1, g2, g3, g4))"

text \<open>\<open>re.match("\s*(\w+)\s+\"(.+)\"", line)\<close>\<close>

definition re_var_label :: "string \<Rightarrow> (string \<times> string) option" where
  "re_var_label line =
     (let s1 = dropWhile is_space line;
          g1 = takeWhile is_word s1;
          s2 = dropWhile is_word s1
      in if g1 = [] \<or> takeWhile is_space s2 = [] then None
         else map_option (\<lambda>g2. (g1, g2)) (quoted (dropWhile is_space s2)))"

text \<open>\<open>re.match("\s*\/(\w+)", line)\<close>\<close>

definition re_slash_name :: "string \<Rightarrow> string option" where
  "re_slash_name line =
     (case lit ''/'' (dropWhile is_space line) of
        None \<Rightarrow> None
      | Some r \<Rightarrow> (let g = takeWhile is_word r in if g = [] then None else Some g))"

text \<open>\<open>re.match("\s*\+\s*\"(.+)\"", line)\<close>\<close>

definition re_continuation :: "string \<Rightarrow> string option" where
  "re_continuation line =
     (case lit ''+'' (dropWhile is_space line) of
        None \<Rightarrow> None
      | Some r \<Rightarrow> quoted (dropWhile is_space r))"

text \<open>\<open>re.match("\s*\"?(\w+)\"?\s+\"(.+)\"", line)\<close>\<close>

definition re_value_label :: "string \<Rightarrow> (string \<times> string) option" where
  "re_value_label line =
     (let s1 = opt_char DQ (dropWhile is_space line);
          g1 = takeWhile is_word s1;
          s2 = opt_char DQ (dropWhile is_word s1)
      in if g1 = [] \<or> takeWhile is_space s2 = [] then None
         else map_option (\<lambda>g2. (g1, g2)) (quoted (dropWhile is_space s2)))"

section \<open>The variable specification\<close>

text \<open>
  A variable is a dict with the keys \<open>name\<close>, \<open>startpos\<close>, \<open>endpos\<close> and the optional
  keys \<open>rectype\<close>, \<open>label\<close>, \<open>alpha\<close>, \<open>digits\<close>. Positions and the digit count are kept
  as the strings the parser captured; \<open>int\<close> is applied where they are used. The only
  value ever stored under \<open>alpha\<close> is 1 and only its presence is tested, so it is a flag.
\<close>

record var =
  name :: string
  startpos :: string
  endpos :: string
  rectype :: "string option"
  label :: "string option"
  alpha :: bool
  digits :: "string option"

text \<open>Keys of the \<open>rectypes\<close> dict: record-type strings, or the integer 0 that
  \<open>get_varspec\<close> inserts for a flat file. Every value of the dict is \<open>True\<close>, so the
  dict is the list of its keys.\<close>

datatype rkey = KStr string | KInt int

record varspec =
  vars :: "var list"
  mixed :: bool
  rectypes :: "rkey list"
  rectype_startpos :: "string option"
  rectype_endpos :: "string option"

text \<open>\<open>d[k] = True\<close>\<close>

definition dict_add :: "'k \<Rightarrow> 'k list \<Rightarrow> 'k list" where
  "dict_add k ks = (if k \<in> set ks then ks else ks @ [k])"

section \<open>get\_varspec\<close>

datatype status = Wait | Mixed | Rectype | DataList | Done

record pstate =
  status :: status
  spec :: varspec
  thisrec :: "string option"

definition new_var :: "string option \<Rightarrow> string \<times> string \<times> string \<times> string \<Rightarrow> var" where
  "new_var rec g =
     (case g of (g1, g2, g3, g4) \<Rightarrow>
        \<lparr> name = g1, startpos = g2, endpos = (if g3 \<noteq> [] then g3 else g2),
          rectype = rec, label = None,
          alpha = (g4 = ''a'' \<or> g4 = ''A''),
          digits = (if g4 \<noteq> ''a'' \<and> g4 \<noteq> ''A'' \<and> isdigit g4 then Some g4 else None) \<rparr>)"

text \<open>One iteration of the first loop, for a status other than \<open>done\<close>.\<close>

definition varspec_step :: "pstate \<Rightarrow> string \<Rightarrow> error + pstate" where
  "varspec_step st line =
     (case status st of
        Wait \<Rightarrow>
          if search_lit ''data list'' line then Inr (st\<lparr>status := DataList\<rparr>)
          else if search_lit ''file type mixed'' line then Inr (st\<lparr>status := Mixed\<rparr>)
          else Inr st
      | Mixed \<Rightarrow>
          if re_search re_slash_record line \<noteq> None then
            (case re_search re_record_range line of
               None \<Rightarrow> Inl AttributeError
             | Some (g1, g2) \<Rightarrow>
                 Inr (st\<lparr>spec := (spec st)\<lparr>rectype_startpos := Some g1,
                                            rectype_endpos := Some g2, mixed := True\<rparr>,
                         status := Rectype\<rparr>))
          else Inr st
      | Rectype \<Rightarrow>
          if search_lit ''record type'' line then
            (case re_search re_record_type line of
               None \<Rightarrow> Inl AttributeError
             | Some g \<Rightarrow>
                 Inr (st\<lparr>thisrec := Some g,
                         spec := (spec st)\<lparr>rectypes := dict_add (KStr g) (rectypes (spec st))\<rparr>,
                         status := Wait\<rparr>))
          else if search_lit ''end file type'' line then Inr (st\<lparr>status := Done\<rparr>)
          else Inr st
      | DataList \<Rightarrow>
          if re_period line then
            (if thisrec st = None then Inr (st\<lparr>status := Done\<rparr>)
             else Inr (st\<lparr>status := Rectype\<rparr>))
          else
            (case re_var_decl line of
               None \<Rightarrow> Inl AttributeError
             | Some g \<Rightarrow>
                 Inr (st\<lparr>spec := (spec st)\<lparr>vars := vars (spec st) @ [new_var (thisrec st) g]\<rparr>\<rparr>))
      | Done \<Rightarrow> Inr st)"

text \<open>The first \<open>for line in src\<close>: it returns the state and the lines not yet read.
  The \<open>break\<close> is taken on the line read after \<open>done\<close> was set, so that line is consumed.\<close>

fun varspec_loop :: "pstate \<Rightarrow> string list \<Rightarrow> error + (pstate \<times> string list)" where
  "varspec_loop st [] = Inr (st, [])"
| "varspec_loop st (line # src) =
     (if status st = Done then Inr (st, src)
      else (case varspec_step st line of
              Inl e \<Rightarrow> Inl e
            | Inr st' \<Rightarrow> varspec_loop st' src))"

text \<open>The second loop attaches labels. \<open>m.group\<close> is evaluated inside the loop over
  the variables, so a line that does not match raises only when there is a variable.\<close>

datatype lstatus = LWait | VariableLabels | EndVariableLabels

fun set_label :: "string \<Rightarrow> string \<Rightarrow> var list \<Rightarrow> var list" where
  "set_label n l [] = []"
| "set_label n l (v # vs) =
     (if name v = n then v\<lparr>label := Some l\<rparr> # vs else v # set_label n l vs)"

definition label_step :: "lstatus \<times> var list \<Rightarrow> string \<Rightarrow> error + (lstatus \<times> var list)" where
  "label_step st line =
     (case st of (ls, vs) \<Rightarrow>
        (case ls of
           LWait \<Rightarrow>
             if search_lit ''variable labels'' line then Inr (VariableLabels, vs) else Inr st
         | VariableLabels \<Rightarrow>
             if re_period line then Inr (EndVariableLabels, vs)
             else (case re_var_label line of
                     None \<Rightarrow> if vs = [] then Inr st else Inl AttributeError
                   | Some (n, l) \<Rightarrow> Inr (ls, set_label n l vs))
         | EndVariableLabels \<Rightarrow> Inr st))"

fun label_loop :: "lstatus \<times> var list \<Rightarrow> string list \<Rightarrow> error + var list" where
  "label_loop st [] = Inr (snd st)"
| "label_loop st (line # src) =
     (if fst st = EndVariableLabels then Inr (snd st)
      else (case label_step st line of
              Inl e \<Rightarrow> Inl e
            | Inr st' \<Rightarrow> label_loop st' src))"

definition init_pstate :: pstate where
  "init_pstate =
     \<lparr> status = Wait,
       spec = \<lparr> vars = [], mixed = False, rectypes = [],
                rectype_startpos = None, rectype_endpos = None \<rparr>,
       thisrec = None \<rparr>"

text \<open>\<open>get_varspec\<close> on the lines of the syntax file (the file is opened by the caller).\<close>

definition get_varspec :: "string list \<Rightarrow> error + varspec" where
  "get_varspec src =
     (case varspec_loop init_pstate src of
        Inl e \<Rightarrow> Inl e
      | Inr (st, rest) \<Rightarrow>
          (let v1 = (if length (rectypes (spec st)) = 0
                     then (spec st)\<lparr>rectypes := [KInt 0]\<rparr> else spec st)
           in (case label_loop (LWait, vars v1) rest of
                 Inl e \<Rightarrow> Inl e
               | Inr vs' \<Rightarrow> Inr (v1\<lparr>vars := vs'\<rparr>))))"

section \<open>get\_data\_ddl\<close>

text \<open>\<open>s[:len(s)-2]\<close>\<close>

definition chop2 :: "string \<Rightarrow> string" where
  "chop2 s = py_slice s None (Some (int (length s) - 2))"

text \<open>The table header that an iteration may start: the state is the local \<open>rectype\<close>
  and the text \<open>s\<close> built so far; \<open>i\<close> is the index from \<open>enumerate\<close>.\<close>

definition ddl_header :: "nat \<Rightarrow> var \<Rightarrow> string option \<times> string \<Rightarrow> string option \<times> string" where
  "ddl_header i v st =
     (case st of (cur, s) \<Rightarrow>
        (case rectype v of
           Some r \<Rightarrow>
             if cur = None then (Some r, ''create table '' @ r @ '' ('' @ [NL])
             else if cur \<noteq> Some r
               then (Some r, chop2 s @ [NL] @ '');'' @ [NL] @ ''create table '' @ r @ '' ('' @ [NL])
             else (cur, s)
         | None \<Rightarrow>
             if i = 0 then (cur, ''create table ipumsdata ('' @ [NL]) else (cur, s)))"

text \<open>The column text appended for one variable.\<close>

definition ddl_column :: "var \<Rightarrow> error + string" where
  "ddl_column v =
     (case py_int (endpos v) of
        Inl e \<Rightarrow> Inl e
      | Inr b \<Rightarrow>
          (case py_int (startpos v) of
             Inl e \<Rightarrow> Inl e
           | Inr a \<Rightarrow>
               (let varlen = 1 + b - a
                in Inr (replicate 4 CHR '' '' @ name v @ replicate (24 - length (name v)) CHR '' '' @
                        (if alpha v then ''varchar('' @ py_str varlen @ ''),'' @ [NL]
                         else if digits v \<noteq> None then ''double precision,'' @ [NL]
                         else if varlen > 9 then ''bigint,'' @ [NL]
                         else ''int,'' @ [NL])))))"

fun ddl_loop :: "nat \<Rightarrow> var list \<Rightarrow> string option \<times> string \<Rightarrow> error + (string option \<times> string)" where
  "ddl_loop i [] st = Inr st"
| "ddl_loop i (v # vs) st =
     (case ddl_column v of
        Inl e \<Rightarrow> Inl e
      | Inr c \<Rightarrow> ddl_loop (Suc i) vs (fst (ddl_header i v st), snd (ddl_header i v st) @ c))"

definition get_data_ddl :: "varspec \<Rightarrow> error + string" where
  "get_data_ddl vsp =
     (case ddl_loop 0 (vars vsp) (None, []) of
        Inl e \<Rightarrow> Inl e
      | Inr st \<Rightarrow> Inr (chop2 (snd st) @ [NL] @ '');'' @ [NL]))"

section \<open>get\_valuelabels\<close>

text \<open>The entries of \<open>valspec\<close> are the three-element lists \<open>[varname, value, value_label]\<close>.
  The local \<open>varname\<close> is unbound until the first line that starts with a slash.\<close>

record vstate =
  vstatus :: nat
  valspec :: "(string \<times> string \<times> string) list"
  varname :: "string option"

definition valuelabels_step :: "vstate \<Rightarrow> string \<Rightarrow> error + vstate" where
  "valuelabels_step st line =
     (if vstatus st = 0 then
        (if search_lit ''value labels'' line then Inr (st\<lparr>vstatus := 1\<rparr>) else Inr st)
      else if vstatus st = 1 then
        (if re_period line then Inr (st\<lparr>vstatus := 2\<rparr>)
         else
           (case re_slash_name line of
              Some g \<Rightarrow> Inr (st\<lparr>varname := Some g\<rparr>)
            | None \<Rightarrow>
                (case re_continuation line of
                   Some frag \<Rightarrow>
                     if valspec st = [] then Inl IndexError
                     else (case last (valspec st) of (vn, value, value_label) \<Rightarrow>
                             Inr (st\<lparr>valspec := butlast (valspec st) @
                                       [(vn, value, value_label @ frag)]\<rparr>))
                 | None \<Rightarrow>
                     (case re_value_label line of
                        None \<Rightarrow> Inl AttributeError
                      | Some (value, value_label) \<Rightarrow>
                          (case varname st of
                             None \<Rightarrow> Inl UnboundLocalError
                           | Some vn \<Rightarrow>
                               Inr (st\<lparr>valspec := valspec st @ [(vn, value, value_label)]\<rparr>))))))
      else Inr st)"

fun valuelabels_loop :: "vstate \<Rightarrow> string list \<Rightarrow> error + vstate" where
  "valuelabels_loop st [] = Inr st"
| "valuelabels_loop st (line # src) =
     (if vstatus st = 2 then Inr st
      else (case valuelabels_step st line of
              Inl e \<Rightarrow> Inl e
            | Inr st' \<Rightarrow> valuelabels_loop st' src))"

definition get_valuelabels :: "string list \<Rightarrow> error + (string \<times> string \<times> string) list" where
  "get_valuelabels src =
     (case valuelabels_loop \<lparr>vstatus = 0, valspec = [], varname = None\<rparr> src of
        Inl e \<Rightarrow> Inl e
      | Inr st \<Rightarrow> Inr (valspec st))"

section \<open>sanitize\_text, save\_vars, save\_valuelabels\<close>

definition sanitize_text :: "string \<Rightarrow> string" where
  "sanitize_text txtin = str_replace [BSL] [BSL, BSL] (str_replace [TAB] [BSL, CHR ''t''] txtin)"

text \<open>A writer returns the strings passed to \<open>fout.write\<close>, in order, and its counters.\<close>

fun save_vars_loop :: "var list \<Rightarrow> string list \<times> nat \<Rightarrow> string list \<times> nat" where
  "save_vars_loop [] acc = acc"
| "save_vars_loop (v # vs) acc =
     save_vars_loop vs
       (fst acc @ [name v @ [TAB] @ (case label v of None \<Rightarrow> [] | Some l \<Rightarrow> sanitize_text l) @ [NL]],
        snd acc + 1)"

definition save_vars :: "varspec \<Rightarrow> string list \<times> nat" where
  "save_vars vsp = save_vars_loop (vars vsp) ([], 0)"

text \<open>The inner loop of \<open>save_valuelabels\<close>: the first variable with the name decides.\<close>

fun first_named :: "string \<Rightarrow> var list \<Rightarrow> var option" where
  "first_named x [] = None"
| "first_named x (v # vs) = (if name v = x then Some v else first_named x vs)"

fun save_valuelabels_loop ::
  "var list \<Rightarrow> (string \<times> string \<times> string) list \<Rightarrow> string list \<times> nat \<times> nat \<Rightarrow> string list \<times> nat \<times> nat" where
  "save_valuelabels_loop vs [] acc = acc"
| "save_valuelabels_loop vs (val # vals) acc =
     (case acc of (out, nr, nw) \<Rightarrow>
        (case val of (v0, v1, v2) \<Rightarrow>
           save_valuelabels_loop vs vals
             (case first_named v0 vs of
                None \<Rightarrow> (out, nr + 1, nw)
              | Some v \<Rightarrow>
                  if alpha v then (out, nr + 1, nw)
                  else (out @ [v0 @ [TAB] @ v1 @ [TAB] @ sanitize_text v2 @ [NL]], nr + 1, nw + 1))))"

definition save_valuelabels ::
  "varspec \<Rightarrow> (string \<times> string \<times> string) list \<Rightarrow> string list \<times> nat \<times> nat" where
  "save_valuelabels vsp vals = save_valuelabels_loop (vars vsp) vals ([], 0, 0)"

section \<open>save\_data\<close>

text \<open>\<open>os.path.splitext\<close> (POSIX): the extension starts at the last dot of the last
  path component, unless that component has only dots before it.\<close>

definition rfind :: "char \<Rightarrow> string \<Rightarrow> int" where
  "rfind c s =
     (if c \<in> set s then int (length s) - 1 - int (length (takeWhile (\<lambda>x. x \<noteq> c) (rev s))) else - 1)"

definition splitext :: "string \<Rightarrow> string \<times> string" where
  "splitext p =
     (let sepIndex = rfind CHR ''/'' p; dotIndex = rfind CHR ''.'' p
      in if dotIndex > sepIndex \<and>
            list_ex (\<lambda>c. c \<noteq> CHR ''.'') (py_slice p (Some (sepIndex + 1)) (Some dotIndex))
         then (py_slice p None (Some dotIndex), py_slice p (Some dotIndex) None)
         else (p, []))"

text \<open>The argument \<open>maxrows\<close> is the integer 0 by default and a command-line string
  otherwise; \<open>int(maxrows)\<close> is taken after every record.\<close>

datatype pyval = PInt int | PStr string

definition to_int :: "pyval \<Rightarrow> error + int" where
  "to_int v = (case v of PInt i \<Rightarrow> Inr i | PStr s \<Rightarrow> py_int s)"

text \<open>The dicts \<open>fnames\<close>, \<open>fout\<close> and \<open>nout\<close> and the counter \<open>n\<close>. An output file is
  the list of the strings written to it.\<close>

record sdstate =
  fnames :: "rkey \<rightharpoonup> string"
  fout :: "rkey \<rightharpoonup> string list"
  nout :: "rkey \<rightharpoonup> nat"
  nread :: nat

text \<open>Opening the output files: with \<open>mixed\<close> the name is \<open>root + "_" + rectype + ext\<close>,
  a \<open>TypeError\<close> when the key is the integer placeholder.\<close>

fun open_outfiles :: "bool \<Rightarrow> string \<Rightarrow> rkey list \<Rightarrow> sdstate \<Rightarrow> error + sdstate" where
  "open_outfiles mx outfile [] st = Inr st"
| "open_outfiles mx outfile (k # ks) st =
     (if mx then
        (case k of
           KInt i \<Rightarrow> Inl TypeError
         | KStr r \<Rightarrow>
             open_outfiles mx outfile ks
               (st\<lparr>fnames := (fnames st)(k \<mapsto> fst (splitext outfile) @ ''_'' @ r @ snd (splitext outfile)),
                    fout := (fout st)(k \<mapsto> []), nout := (nout st)(k \<mapsto> 0)\<rparr>))
      else
        open_outfiles mx outfile ks
          (st\<lparr>fnames := (fnames st)(k \<mapsto> outfile),
               fout := (fout st)(k \<mapsto> []), nout := (nout st)(k \<mapsto> 0)\<rparr>))"

text \<open>The record type of a line.\<close>

definition line_rectype :: "varspec \<Rightarrow> string \<Rightarrow> error + rkey" where
  "line_rectype vsp line =
     (if mixed vsp then
        (case rectype_startpos vsp of
           None \<Rightarrow> Inl KeyError
         | Some sp \<Rightarrow>
             (case py_int sp of
                Inl e \<Rightarrow> Inl e
              | Inr a \<Rightarrow>
                  (case rectype_endpos vsp of
                     None \<Rightarrow> Inl KeyError
                   | Some ep \<Rightarrow>
                       (case py_int ep of
                          Inl e \<Rightarrow> Inl e
                        | Inr b \<Rightarrow> Inr (KStr (strip (py_slice line (Some (a - 1)) (Some b))))))))
      else Inr (KInt 0))"

text \<open>\<open>fld[:-d] + '.' + fld[-d:]\<close>\<close>

definition insert_point :: "string \<Rightarrow> int \<Rightarrow> string" where
  "insert_point fld d = py_slice fld None (Some (- d)) @ ''.'' @ py_slice fld (Some (- d)) None"

text \<open>The field of one variable: the slice, stripped, with the decimal point when the
  variable has \<open>digits\<close>.\<close>

definition get_field :: "var \<Rightarrow> string \<Rightarrow> error + string" where
  "get_field v line =
     (case py_int (startpos v) of
        Inl e \<Rightarrow> Inl e
      | Inr a \<Rightarrow>
          (case py_int (endpos v) of
             Inl e \<Rightarrow> Inl e
           | Inr b \<Rightarrow>
               (let fld = strip (py_slice line (Some (a - 1)) (Some b))
                in (case digits v of
                      None \<Rightarrow> Inr fld
                    | Some ds \<Rightarrow>
                        (case py_int ds of
                           Inl e \<Rightarrow> Inl e
                         | Inr d \<Rightarrow> Inr (insert_point fld d))))))"

text \<open>The loop over the variables that fills \<open>rec\<close>. With \<open>mixed\<close>, \<open>var['rectype']\<close>
  is read, a \<open>KeyError\<close> for a variable without that key.\<close>

fun get_rec :: "bool \<Rightarrow> rkey \<Rightarrow> string \<Rightarrow> var list \<Rightarrow> string list \<Rightarrow> error + string list" where
  "get_rec mx rt line [] rec = Inr rec"
| "get_rec mx rt line (v # vs) rec =
     (if \<not> mx then
        (case get_field v line of
           Inl e \<Rightarrow> Inl e
         | Inr fld \<Rightarrow> get_rec mx rt line vs (rec @ [fld]))
      else
        (case rectype v of
           None \<Rightarrow> Inl KeyError
         | Some r \<Rightarrow>
             if KStr r = rt then
               (case get_field v line of
                  Inl e \<Rightarrow> Inl e
                | Inr fld \<Rightarrow> get_rec mx rt line vs (rec @ [fld]))
             else get_rec mx rt line vs rec))"

text \<open>One line of the main loop, up to and including \<open>n = n + 1\<close>.\<close>

definition save_data_line :: "varspec \<Rightarrow> sdstate \<Rightarrow> string \<Rightarrow> error + sdstate" where
  "save_data_line vsp st line =
     (case line_rectype vsp line of
        Inl e \<Rightarrow> Inl e
      | Inr rt \<Rightarrow>
          (case get_rec (mixed vsp) rt line (vars vsp) [] of
             Inl e \<Rightarrow> Inl e
           | Inr rec \<Rightarrow>
               (case fout st rt of
                  None \<Rightarrow> Inl KeyError
                | Some f \<Rightarrow>
                    (case nout st rt of
                       None \<Rightarrow> Inl KeyError
                     | Some k \<Rightarrow>
                         Inr (st\<lparr>fout := (fout st)(rt \<mapsto> f @ [join [TAB] rec @ [NL]]),
                                 nout := (nout st)(rt \<mapsto> k + 1),
                                 nread := nread st + 1\<rparr>)))))"

text \<open>The main loop; the progress message printed every 10000 records is left out.\<close>

fun save_data_loop :: "varspec \<Rightarrow> pyval \<Rightarrow> sdstate \<Rightarrow> string list \<Rightarrow> error + sdstate" where
  "save_data_loop vsp maxrows st [] = Inr st"
| "save_data_loop vsp maxrows st (line # fin) =
     (case save_data_line vsp st line of
        Inl e \<Rightarrow> Inl e
      | Inr st' \<Rightarrow>
          (case to_int maxrows of
             Inl e \<Rightarrow> Inl e
           | Inr m \<Rightarrow>
               if int (nread st') = m then Inr st'
               else save_data_loop vsp maxrows st' fin))"

text \<open>\<open>save_data\<close> on the lines of the decompressed input file.\<close>

definition save_data :: "varspec \<Rightarrow> string list \<Rightarrow> string \<Rightarrow> pyval \<Rightarrow> error + sdstate" where
  "save_data vsp fin outfile maxrows =
     (case open_outfiles (mixed vsp) outfile (rectypes vsp)
             \<lparr>fnames = Map.empty, fout = Map.empty, nout = Map.empty, nread = 0\<rparr> of
        Inl e \<Rightarrow> Inl e
      | Inr st \<Rightarrow> save_data_loop vsp maxrows st fin)"

section \<open>The command line\<close>

text \<open>
  What a run does, as seen by the operator: it prints the message \<open>youfail\<close>, it ends in
  an uncaught exception, or it completes one of the four operations. \<open>read_file\<close> gives
  the lines of a readable file (\<open>None\<close>: the file cannot be opened).
\<close>

datatype outcome =
    Youfail
  | Uncaught error
  | PrintedDDL string
  | SavedVars string "string list \<times> nat"
  | SavedVals string "string list \<times> nat \<times> nat"
  | SavedData sdstate

definition main :: "(string \<Rightarrow> string list option) \<Rightarrow> string list \<Rightarrow> outcome" where
  "main read_file argv =
     (if length argv < 3 then Youfail
      else
        (case read_file (argv ! 2) of
           None \<Rightarrow> Uncaught IOError
         | Some src \<Rightarrow>
             (case get_varspec src of
                Inl e \<Rightarrow> Uncaught e
              | Inr vsp \<Rightarrow>
                  if argv ! 1 = ''ddl'' then
                    (case get_data_ddl vsp of Inl e \<Rightarrow> Uncaught e | Inr s \<Rightarrow> PrintedDDL s)
                  else if argv ! 1 = ''vars'' then
                    (if length argv \<le> 3 then Uncaught IndexError
                     else SavedVars (argv ! 3) (save_vars vsp))
                  else if argv ! 1 = ''vals'' then
                    (case get_valuelabels src of
                       Inl e \<Rightarrow> Uncaught e
                     | Inr vals \<Rightarrow>
                         if length argv \<le> 3 then Uncaught IndexError
                         else SavedVals (argv ! 3) (save_valuelabels vsp vals))
                  else if argv ! 1 = ''data'' then
                    (let n = (if length argv = 6 then PStr (argv ! 5) else PInt 0)
                     in if length argv \<le> 4 then Uncaught IndexError
                        else (case read_file (argv ! 3) of
                                None \<Rightarrow> Uncaught IOError
                              | Some fin \<Rightarrow>
                                  (case save_data vsp fin (argv ! 4) n of
                                     Inl e \<Rightarrow> Uncaught e
                                   | Inr st \<Rightarrow> SavedData st)))
                  else Youfail)))"

section \<open>Descriptions used in the statements\<close>

text \<open>What \<open>sanitize_text\<close> makes of one character.\<close>

definition escape_char :: "char \<Rightarrow> string" where
  "escape_char c = (if c = TAB then [BSL, BSL, CHR ''t''] else if c = BSL then [BSL, BSL] else [c])"

text \<open>A variable over columns 1-3 with two implied decimals, as \<open>V1 1-3 (2)\<close> declares it.\<close>

definition short_var :: var where
  "short_var = \<lparr>name = ''V1'', startpos = ''1'', endpos = ''3'', rectype = None,
                 label = None, alpha = False, digits = Some ''2''\<rparr>"

text \<open>What the parser guarantees of a variable: a record type it carries is a key of
  \<open>rectypes\<close>, and the positions and the digit count are digit strings.\<close>

definition var_ok :: "rkey list \<Rightarrow> var \<Rightarrow> bool" where
  "var_ok ks v =
     ((\<forall>r. rectype v = Some r \<longrightarrow> KStr r \<in> set ks) \<and>
      isdigit (startpos v) \<and> isdigit (endpos v) \<and>
      (\<forall>ds. digits v = Some ds \<longrightarrow> isdigit ds))"

text \<open>The invariant of the first loop of \<open>get_varspec\<close>.\<close>

definition varspec_inv :: "pstate \<Rightarrow> bool" where
  "varspec_inv st =
     ((\<forall>r. thisrec st = Some r \<longrightarrow> KStr r \<in> set (rectypes (spec st))) \<and>
      (\<forall>v \<in> set (vars (spec st)). var_ok (rectypes (spec st)) v) \<and>
      (mixed (spec st) \<longrightarrow>
         (\<forall>v \<in> set (vars (spec st)). rectype v \<noteq> None) \<and>
         (status st \<in> {Wait, Mixed, DataList} \<longrightarrow> thisrec st \<noteq> None)) \<and>
      (\<not> mixed (spec st) \<longrightarrow>
         rectypes (spec st) = [] \<and> thisrec st = None \<and> status st \<noteq> Rectype \<and>
         (status st \<in> {Wait, Mixed} \<longrightarrow> vars (spec st) = [])) \<and>
      (\<forall>k \<in> set (rectypes (spec st)). \<exists>r. k = KStr r))"

text \<open>Two variable lists that differ in labels only.\<close>

definition same_layout :: "var list \<Rightarrow> var list \<Rightarrow> bool" where
  "same_layout vs ws = (map (\<lambda>v. v\<lparr>label := None\<rparr>) vs = map (\<lambda>v. v\<lparr>label := None\<rparr>) ws)"

text \<open>The field of a variable whose positions and digit count are digit strings.\<close>

definition field_text :: "string \<Rightarrow> var \<Rightarrow> string" where
  "field_text line v =
     (let fld = strip (py_slice line (Some (int (dec_value (startpos v)) - 1))
                                     (Some (int (dec_value (endpos v)))))
      in case digits v of None \<Rightarrow> fld | Some ds \<Rightarrow> insert_point fld (int (dec_value ds)))"

text \<open>The variables that go into the record of a line of record type \<open>rt\<close>.\<close>

definition selected :: "bool \<Rightarrow> rkey \<Rightarrow> var \<Rightarrow> bool" where
  "selected mx rt v =
     (if mx then (case rectype v of None \<Rightarrow> False | Some r \<Rightarrow> KStr r = rt) else True)"



text \<open>The text of one column, of a table header and of one \<open>create table\<close> statement
  for a record type and its variables.\<close>

definition column_text :: "var \<Rightarrow> string" where
  "column_text v =
     (let varlen = 1 + int (dec_value (endpos v)) - int (dec_value (startpos v))
      in replicate 4 CHR '' '' @ name v @ replicate (24 - length (name v)) CHR '' '' @
         (if alpha v then ''varchar('' @ py_str varlen @ ''),'' @ [NL]
          else if digits v \<noteq> None then ''double precision,'' @ [NL]
          else if varlen > 9 then ''bigint,'' @ [NL]
          else ''int,'' @ [NL]))"

definition table_open :: "string option \<Rightarrow> string" where
  "table_open r =
     ''create table '' @ (case r of None \<Rightarrow> ''ipumsdata'' | Some t \<Rightarrow> t) @ '' ('' @ [NL]"

definition table_text :: "string option \<times> var list \<Rightarrow> string" where
  "table_text g =
     table_open (fst g) @ chop2 (concat (map column_text (snd g))) @ [NL] @ '');'' @ [NL]"

text \<open>The variable list cut into its maximal runs of equal record type, in order.\<close>

fun runs_from :: "string option \<Rightarrow> var list \<Rightarrow> var list \<Rightarrow> (string option \<times> var list) list" where
  "runs_from r g [] = [(r, g)]"
| "runs_from r g (v # vs) =
     (if rectype v = r then runs_from r (g @ [v]) vs
      else (r, g) # runs_from (rectype v) [v] vs)"

definition runs :: "var list \<Rightarrow> (string option \<times> var list) list" where
  "runs vs = (case vs of [] \<Rightarrow> [] | v # ws \<Rightarrow> runs_from (rectype v) [v] ws)"

text \<open>The row that \<open>save_vars\<close> writes for a variable.\<close>

definition var_row :: "var \<Rightarrow> string" where
  "var_row v = name v @ [TAB] @ (case label v of None \<Rightarrow> [] | Some l \<Rightarrow> sanitize_text l) @ [NL]"

text \<open>The declarations of a syntax file, in file order: each line that the first loop
  of \<open>get_varspec\<close> reads in the status \<open>data list\<close>, that is not the terminator and
  that matches the declaration pattern, with its line number (from 0) and the variable
  it declares under the record type current at that line.\<close>

definition declared_here :: "pstate \<Rightarrow> string \<Rightarrow> var list" where
  "declared_here st line =
     (if status st = DataList \<and> re_period line = False then
        (case re_var_decl line of None \<Rightarrow> [] | Some g \<Rightarrow> [new_var (thisrec st) g])
      else [])"

fun declarations :: "pstate \<Rightarrow> nat \<Rightarrow> string list \<Rightarrow> (nat \<times> var) list" where
  "declarations st i [] = []"
| "declarations st i (line # src) =
     (if status st = Done then []
      else (case varspec_step st line of
              Inl e \<Rightarrow> []
            | Inr st' \<Rightarrow>
                map (\<lambda>v. (i, v)) (declared_here st line) @ declarations st' (Suc i) src))"

text \<open>A flat and a hierarchical syntax file with the specifications they parse to, and
  raw data for them.\<close>

definition flat_src :: "string list" where
  "flat_src =
     [''data list file=x /'' @ [NL], ''  V1 10-15 (2)'' @ [NL], ''  NAME 1-3 (a)'' @ [NL],
      ''  AGE 4'' @ [NL], '' .'' @ [NL], [NL],
      ''variable labels'' @ [NL], ''  V1  '' @ [DQ] @ ''Value one'' @ [DQ, NL], ''.'' @ [NL]]"

definition flat_spec :: varspec where
  "flat_spec =
     \<lparr>vars =
        [\<lparr>name = ''V1'', startpos = ''10'', endpos = ''15'', rectype = None,
          label = Some ''Value one'', alpha = False, digits = Some ''2''\<rparr>,
         \<lparr>name = ''NAME'', startpos = ''1'', endpos = ''3'', rectype = None,
          label = None, alpha = True, digits = None\<rparr>,
         \<lparr>name = ''AGE'', startpos = ''4'', endpos = ''4'', rectype = None,
          label = None, alpha = False, digits = None\<rparr>],
      mixed = False, rectypes = [KInt 0], rectype_startpos = None, rectype_endpos = None\<rparr>"

definition hier_src :: "string list" where
  "hier_src =
     [''file type mixed'' @ [NL], ''  /record = 1-2'' @ [NL],
      ''record type '' @ [DQ] @ ''H'' @ [DQ, NL], ''data list /'' @ [NL], '' HID 3-5'' @ [NL], '' .'' @ [NL],
      ''record type '' @ [DQ] @ ''P'' @ [DQ, NL], ''data list /'' @ [NL], '' PID 3-4'' @ [NL],
      '' INC 5-9 (2)'' @ [NL], '' .'' @ [NL], ''end file type'' @ [NL], ''.'' @ [NL]]"

definition hier_spec :: varspec where
  "hier_spec =
     \<lparr>vars =
        [\<lparr>name = ''HID'', startpos = ''3'', endpos = ''5'', rectype = Some ''H'',
          label = None, alpha = False, digits = None\<rparr>,
         \<lparr>name = ''PID'', startpos = ''3'', endpos = ''4'', rectype = Some ''P'',
          label = None, alpha = False, digits = None\<rparr>,
         \<lparr>name = ''INC'', startpos = ''5'', endpos = ''9'', rectype = Some ''P'',
          label = None, alpha = False, digits = Some ''2''\<rparr>],
      mixed = True, rectypes = [KStr ''H'', KStr ''P''],
      rectype_startpos = Some ''1'', rectype_endpos = Some ''2''\<rparr>"


definition bad_line :: string where
  "bad_line = ''Q 1200123'' @ [NL]"

definition cont_line :: string where
  "cont_line = ''  + '' @ [DQ] @ ''sir'' @ [DQ, NL]"

definition one_file :: "string \<Rightarrow> string list option" where
  "one_file p = (if p = ''ipums.sps'' then Some flat_src else None)"

definition p_line :: string where
  "p_line = ''P 1200123'' @ [NL]"

definition open_state :: sdstate where
  "open_state =
     \<lparr>fnames = Map.empty, fout = [KStr ''H'' \<mapsto> [], KStr ''P'' \<mapsto> []],
      nout = [KStr ''H'' \<mapsto> 0, KStr ''P'' \<mapsto> 0], nread = 0\<rparr>"

section \<open>Strings and integers\<close>

lemma str_replace_single:
  "str_replace [c] new s = concat (map (\<lambda>x. if x = c then new else [x]) s)"
proof (induction s)
  case Nil
  show ?case by (simp add: str_replace.simps)
next
  case (Cons a s)
  show ?case
    by (subst str_replace.simps) (simp add: Cons.IH)
qed

lemma not_space_digit: "is_digit c \<Longrightarrow> \<not> is_space c"
  by (auto simp: is_digit_def is_space_def Let_def)

lemma dropWhile_hd_id: "xs \<noteq> [] \<Longrightarrow> \<not> P (hd xs) \<Longrightarrow> dropWhile P xs = xs"
  by (cases xs) simp_all

lemma strip_digits:
  assumes "list_all is_digit ds"
  shows "strip ds = ds"
proof (cases "ds = []")
  case True
  then show ?thesis by (simp add: strip_def)
next
  case False
  have "is_digit (hd ds)" using assms False by (cases ds) simp_all
  then have front: "dropWhile is_space ds = ds"
    using False by (simp add: dropWhile_hd_id not_space_digit)
  have "last ds \<in> set ds" using False by simp
  then have "is_digit (last ds)" using assms by (simp add: list_all_iff)
  then have "\<not> is_space (hd (rev ds))"
    using False by (simp add: hd_rev not_space_digit)
  then have "dropWhile is_space (rev ds) = rev ds"
    using False by (simp add: dropWhile_hd_id)
  then show ?thesis by (simp add: strip_def front)
qed

lemma py_int_digits:
  assumes "isdigit ds"
  shows "py_int ds = Inr (int (dec_value ds))"
proof -
  from assms have ne: "ds \<noteq> []" and all: "list_all is_digit ds"
    by (simp_all add: isdigit_def)
  have s: "strip ds = ds" by (rule strip_digits [OF all])
  have "is_digit (hd ds)" using ne all by (cases ds) simp_all
  then have "hd ds \<noteq> CHR ''-''" and "hd ds \<noteq> CHR ''+''"
    by (auto simp: is_digit_def)
  then show ?thesis using ne all by (simp add: py_int_def s Let_def)
qed

lemma insert_point_short:
  assumes "int (length fld) < d"
  shows "insert_point fld d = ''.'' @ fld"
  using assms by (simp add: insert_point_def py_slice_def clamp_index_def)

lemma insert_point_pos:
  assumes "0 < d" and "d \<le> int (length fld)"
  shows "insert_point fld d = take (length fld - nat d) fld @ ''.'' @ drop (length fld - nat d) fld"
  using assms
  by (simp add: insert_point_def py_slice_def clamp_index_def Let_def nat_diff_distrib' max_def)

lemma insert_point_zero: "insert_point fld 0 = ''.'' @ fld"
  by (simp add: insert_point_def py_slice_def clamp_index_def)

section \<open>sanitize\_text\<close>

lemma sanitize_text_chars: "sanitize_text s = concat (map escape_char s)"
  by (induction s) (simp_all add: sanitize_text_def str_replace_single escape_char_def)

lemma length_sanitize_text:
  "length (sanitize_text s) = length s + 2 * count_list s TAB + count_list s BSL"
  by (induction s) (simp_all add: sanitize_text_chars escape_char_def)

lemma count_sanitize_text:
  "count_list (sanitize_text s) BSL = 2 * count_list s TAB + 2 * count_list s BSL"
  by (induction s) (simp_all add: sanitize_text_chars escape_char_def)

text \<open>
  C4. The claim is that sanitization turns each tab into a two-character escape and each
  backslash into two backslashes. The second \<open>replace\<close> also doubles the backslash that
  the first one has just written for a tab: a label that is a single tab comes out as the
  three characters backslash, backslash, \<open>t\<close>, and in \<open>a<tab>b\c\<close> the tab takes three
  characters and the backslash two.
\<close>

theorem sanitize_text_tab_three_chars:
  "sanitize_text [TAB] = [BSL, BSL, CHR ''t''] \<and> length (sanitize_text [TAB]) = 3 \<and>
   sanitize_text (''a'' @ [TAB] @ ''b'' @ [BSL] @ ''c'') =
     ''a'' @ [BSL, BSL, CHR ''t''] @ ''b'' @ [BSL, BSL] @ ''c''"
  by (simp add: sanitize_text_chars escape_char_def)

text \<open>
  C9. Sanitization is not idempotent: there is a label on which a second application
  changes the result of the first, and this is so for every label that contains a tab or
  a backslash.
\<close>

theorem sanitize_text_not_idempotent:
  "(\<exists>s. sanitize_text (sanitize_text s) \<noteq> sanitize_text s) \<and>
   (\<forall>s. TAB \<in> set s \<or> BSL \<in> set s \<longrightarrow> sanitize_text (sanitize_text s) \<noteq> sanitize_text s)"
proof -
  have gen: "sanitize_text (sanitize_text s) \<noteq> sanitize_text s"
    if a: "TAB \<in> set s \<or> BSL \<in> set s" for s
  proof -
    from a have "0 < count_list s TAB + count_list s BSL"
      by (metis add_gr_0 count_list_0_iff gr0I)
    then have "0 < count_list (sanitize_text s) BSL"
      by (simp add: count_sanitize_text)
    then have "length (sanitize_text s) < length (sanitize_text (sanitize_text s))"
      by (simp add: length_sanitize_text [of "sanitize_text s"])
    then show ?thesis by auto
  qed
  have "sanitize_text (sanitize_text [BSL]) \<noteq> sanitize_text [BSL]"
    by (rule gen) simp
  then show ?thesis using gen by blast
qed

theorem sanitize_text_not_idempotent_witness:
  "TAB \<in> set [TAB] \<and> sanitize_text (sanitize_text [TAB]) \<noteq> sanitize_text [TAB] \<and>
   sanitize_text [TAB] = [BSL, BSL, CHR ''t''] \<and>
   sanitize_text (sanitize_text [TAB]) = [BSL, BSL, BSL, BSL, CHR ''t'']"
  using sanitize_text_not_idempotent
  by (simp add: sanitize_text_chars escape_char_def)

section \<open>Implied decimals\<close>

text \<open>
  C1, as the claim states it, fails: for the variable \<open>V1 1-3 (2)\<close> and the raw line
  \<open>5\<close>, which is shorter than the end position and leaves a one-digit field, no
  exception is raised and the field \<open>.5\<close> is produced.
\<close>

theorem short_field_counterexample:
  "re_var_decl (''V1 1-3 (2)'' @ [NL]) = Some (''V1'', ''1'', ''3'', ''2'') \<and>
   get_field (new_var None (''V1'', ''1'', ''3'', ''2'')) (''5'' @ [NL]) = Inr ''.5''"
  by code_simp

text \<open>
  C1, amended. For a variable with \<open>d\<close> implied decimals whose stripped slice has fewer
  than \<open>d\<close> characters (whatever the length of the raw line), the transcoder raises
  nothing: the field is a decimal point followed by the stripped slice.
\<close>

theorem short_field_no_error:
  assumes "py_int (startpos v) = Inr a" and "py_int (endpos v) = Inr b"
    and "digits v = Some ds" and "py_int ds = Inr d"
    and "int (length (strip (py_slice line (Some (a - 1)) (Some b)))) < d"
  shows "get_field v line = Inr (''.'' @ strip (py_slice line (Some (a - 1)) (Some b)))"
  using assms by (simp add: get_field_def insert_point_short)

theorem short_field_no_error_witness:
  "py_int (startpos short_var) = Inr 1 \<and> py_int (endpos short_var) = Inr 3 \<and>
   digits short_var = Some ''2'' \<and> py_int ''2'' = Inr 2 \<and>
   int (length (strip (py_slice (''5'' @ [NL]) (Some (1 - 1)) (Some 3)))) < 2 \<and>
   get_field short_var (''5'' @ [NL]) = Inr ''.5''"
proof -
  have 1: "py_int (startpos short_var) = Inr 1" by code_simp
  have 2: "py_int (endpos short_var) = Inr 3" by code_simp
  have 3: "digits short_var = Some ''2''" by (simp add: short_var_def)
  have 4: "py_int ''2'' = Inr 2" by code_simp
  have 5: "strip (py_slice [CHR ''5'', NL] (Some 0) (Some 3)) = ''5''" by code_simp
  have 6: "int (length (strip (py_slice (''5'' @ [NL]) (Some (1 - 1)) (Some 3)))) < 2"
    by (simp add: 5)
  from short_field_no_error [OF 1 2 3 4 6] show ?thesis
    using 1 2 3 4 by (simp add: 5)
qed

text \<open>With at least \<open>d\<close> characters and \<open>d\<close> positive, the point goes \<open>d\<close> characters
  from the right end.\<close>

lemma get_field_decimals:
  assumes "py_int (startpos v) = Inr a" and "py_int (endpos v) = Inr b"
    and "digits v = Some ds" and "py_int ds = Inr d"
    and "0 < d" and "d \<le> int (length fld)"
    and "fld = strip (py_slice line (Some (a - 1)) (Some b))"
  shows "get_field v line =
         Inr (take (length fld - nat d) fld @ ''.'' @ drop (length fld - nat d) fld)"
  using assms by (simp add: get_field_def insert_point_pos)

lemma implied_decimals_example:
  "re_var_decl (''V1 10-15 (2)'' @ [NL]) = Some (''V1'', ''10'', ''15'', ''2'') \<and>
   get_field (new_var None (''V1'', ''10'', ''15'', ''2'')) (''AAAAAAAAA001234BBB'' @ [NL]) =
     Inr ''0012.34'' \<and>
   insert_point ''12345'' 2 = ''123.45''"
  by code_simp

text \<open>
  C3. The claim is that, for every \<open>d\<close> and every field of at least \<open>d\<close> digits, the
  point is inserted \<open>d\<close> digits from the right end. For \<open>d = 0\<close> the slices are
  \<open>fld[:-0]\<close> and \<open>fld[-0:]\<close>, the empty string and the whole field: the variable
  \<open>V1 1-5 (0)\<close> on the raw line \<open>12345\<close> gives \<open>.12345\<close>, where a point zero digits from
  the right end is \<open>12345.\<close>.
\<close>

theorem implied_decimals_zero:
  "re_var_decl (''V1 1-5 (0)'' @ [NL]) = Some (''V1'', ''1'', ''5'', ''0'') \<and>
   digits (new_var None (''V1'', ''1'', ''5'', ''0'')) = Some ''0'' \<and>
   get_field (new_var None (''V1'', ''1'', ''5'', ''0'')) (''12345'' @ [NL]) = Inr ''.12345''"
  by code_simp

section \<open>The invariant of get\_varspec\<close>

lemma takeWhile_all: "list_all P (takeWhile P xs)"
  by (induction xs) simp_all

lemma re_var_decl_digits:
  assumes "re_var_decl line = Some (g1, g2, g3, g4)"
  shows "isdigit g2 \<and> list_all is_digit g3"
  using assms
  by (auto simp: re_var_decl_def Let_def isdigit_def takeWhile_all split: if_splits)

lemma new_var_ok:
  assumes "re_var_decl line = Some g" and "\<forall>r. rec = Some r \<longrightarrow> KStr r \<in> set ks"
  shows "var_ok ks (new_var rec g)"
proof -
  obtain g1 g2 g3 g4 where g: "g = (g1, g2, g3, g4)" by (cases g) auto
  from re_var_decl_digits [OF assms(1) [unfolded g]]
  have d: "isdigit g2" "list_all is_digit g3" by simp_all
  then have "isdigit (if g3 \<noteq> [] then g3 else g2)" by (simp add: isdigit_def)
  then show ?thesis using d assms(2) by (simp add: var_ok_def new_var_def g)
qed

lemma var_ok_mono: "var_ok ks v \<Longrightarrow> set ks \<subseteq> set ks' \<Longrightarrow> var_ok ks' v"
  by (auto simp: var_ok_def)

lemma set_dict_add: "set (dict_add k ks) = insert k (set ks)"
  by (auto simp: dict_add_def)

lemma varspec_step_inv:
  assumes "varspec_inv st" and "varspec_step st line = Inr st'"
  shows "varspec_inv st'"
proof (cases "status st")
  case Wait
  then show ?thesis using assms
    by (auto simp: varspec_step_def varspec_inv_def split: if_splits)
next
  case Mixed
  then show ?thesis using assms
    by (auto simp: varspec_step_def varspec_inv_def split: if_splits option.splits)
next
  case Rectype
  then show ?thesis using assms
    by (auto simp: varspec_step_def varspec_inv_def set_dict_add
             split: if_splits option.splits intro: var_ok_mono [where ks = "rectypes (spec st)"])
next
  case DataList
  show ?thesis
  proof (cases "re_period line")
    case True
    then show ?thesis using assms DataList
      by (auto simp: varspec_step_def varspec_inv_def split: if_splits)
  next
    case False
    then obtain g where g: "re_var_decl line = Some g"
      and st': "st' = st\<lparr>spec := (spec st)\<lparr>vars := vars (spec st) @ [new_var (thisrec st) g]\<rparr>\<rparr>"
      using assms(2) DataList by (auto simp: varspec_step_def split: option.splits)
    have ok: "var_ok (rectypes (spec st)) (new_var (thisrec st) g)"
      using new_var_ok [OF g] assms(1) by (simp add: varspec_inv_def)
    have rt: "rectype (new_var (thisrec st) g) = thisrec st"
      by (cases g) (simp add: new_var_def)
    show ?thesis using assms(1) ok rt DataList
      by (auto simp: st' varspec_inv_def)
  qed
next
  case Done
  then show ?thesis using assms by (simp add: varspec_step_def)
qed

lemma varspec_loop_inv:
  assumes "varspec_inv st" and "varspec_loop st src = Inr (st', rest)"
  shows "varspec_inv st'"
  using assms
proof (induction src arbitrary: st)
  case Nil
  then show ?case by simp
next
  case (Cons line src)
  show ?case
  proof (cases "status st = Done")
    case True
    then show ?thesis using Cons.prems by simp
  next
    case False
    then obtain st1 where s1: "varspec_step st line = Inr st1"
      and l1: "varspec_loop st1 src = Inr (st', rest)"
      using Cons.prems(2) by (auto split: sum.splits)
    from varspec_step_inv [OF Cons.prems(1) s1] have "varspec_inv st1" .
    then show ?thesis using Cons.IH l1 by blast
  qed
qed

lemma varspec_inv_init: "varspec_inv init_pstate"
  by (simp add: varspec_inv_def init_pstate_def)

lemma set_label_layout: "same_layout (set_label n l vs) vs"
  by (induction vs) (simp_all add: same_layout_def)

lemma label_step_layout:
  "label_step (ls, vs) line = Inr (ls', vs') \<Longrightarrow> same_layout vs' vs"
  by (auto simp: label_step_def same_layout_def set_label_layout [unfolded same_layout_def]
           split: lstatus.splits if_splits option.splits)

lemma label_loop_layout:
  "label_loop (ls, vs) src = Inr vs' \<Longrightarrow> same_layout vs' vs"
proof (induction src arbitrary: ls vs)
  case Nil
  then show ?case by (simp add: same_layout_def)
next
  case (Cons line src)
  show ?case
  proof (cases "ls = EndVariableLabels")
    case True
    then show ?thesis using Cons.prems by (simp add: same_layout_def)
  next
    case False
    then obtain ls1 vs1 where s1: "label_step (ls, vs) line = Inr (ls1, vs1)"
      and l1: "label_loop (ls1, vs1) src = Inr vs'"
      using Cons.prems by (auto split: sum.splits)
    from Cons.IH [OF l1] label_step_layout [OF s1] show ?thesis
      by (simp add: same_layout_def)
  qed
qed

lemma same_layout_nth:
  assumes "same_layout vs ws"
  shows "length vs = length ws"
    and "map rectype vs = map rectype ws" and "map name vs = map name ws"
    and "map startpos vs = map startpos ws" and "map endpos vs = map endpos ws"
    and "map digits vs = map digits ws" and "map alpha vs = map alpha ws"
proof -
  let ?f = "\<lambda>v::var. v\<lparr>label := None\<rparr>"
  from assms have e: "map ?f vs = map ?f ws" by (simp add: same_layout_def)
  then show "length vs = length ws" by (rule map_eq_imp_length_eq)
  have "map (rectype \<circ> ?f) vs = map (rectype \<circ> ?f) ws" using e by (metis map_map)
  then show "map rectype vs = map rectype ws" by (simp add: comp_def)
  have "map (name \<circ> ?f) vs = map (name \<circ> ?f) ws" using e by (metis map_map)
  then show "map name vs = map name ws" by (simp add: comp_def)
  have "map (startpos \<circ> ?f) vs = map (startpos \<circ> ?f) ws" using e by (metis map_map)
  then show "map startpos vs = map startpos ws" by (simp add: comp_def)
  have "map (endpos \<circ> ?f) vs = map (endpos \<circ> ?f) ws" using e by (metis map_map)
  then show "map endpos vs = map endpos ws" by (simp add: comp_def)
  have "map (digits \<circ> ?f) vs = map (digits \<circ> ?f) ws" using e by (metis map_map)
  then show "map digits vs = map digits ws" by (simp add: comp_def)
  have "map (alpha \<circ> ?f) vs = map (alpha \<circ> ?f) ws" using e by (metis map_map)
  then show "map alpha vs = map alpha ws" by (simp add: comp_def)
qed

lemma same_layout_var_ok:
  assumes "same_layout vs ws" and "\<forall>v \<in> set ws. var_ok ks v"
  shows "\<forall>v \<in> set vs. var_ok ks v"
proof
  fix v assume "v \<in> set vs"
  then obtain i where i: "i < length vs" "vs ! i = v" by (auto simp: in_set_conv_nth)
  let ?w = "ws ! i"
  have len: "length vs = length ws" by (rule same_layout_nth(1) [OF assms(1)])
  have "map rectype vs ! i = map rectype ws ! i" "map startpos vs ! i = map startpos ws ! i"
    "map endpos vs ! i = map endpos ws ! i" "map digits vs ! i = map digits ws ! i"
    using same_layout_nth [OF assms(1)] by simp_all
  then have eq: "rectype v = rectype ?w" "startpos v = startpos ?w" "endpos v = endpos ?w"
    "digits v = digits ?w" using i len by simp_all
  have "?w \<in> set ws" using i len by simp
  then have "var_ok ks ?w" using assms(2) by blast
  then show "var_ok ks v" by (simp add: var_ok_def eq)
qed

lemma get_varspec_facts:
  assumes "get_varspec src = Inr vsp"
  shows "(\<forall>v \<in> set (vars vsp). var_ok (rectypes vsp) v)"
    and "mixed vsp \<Longrightarrow> \<forall>v \<in> set (vars vsp). rectype v \<noteq> None"
    and "\<not> mixed vsp \<Longrightarrow> rectypes vsp = [KInt 0]"
    and "rectypes vsp = [KInt 0] \<or> (\<forall>k \<in> set (rectypes vsp). \<exists>r. k = KStr r)"
proof -
  from assms obtain st rest vs' where
    loop: "varspec_loop init_pstate src = Inr (st, rest)"
    and lab: "label_loop (LWait, vars (if length (rectypes (spec st)) = 0
                     then (spec st)\<lparr>rectypes := [KInt 0]\<rparr> else spec st)) rest = Inr vs'"
    and vsp: "vsp = (if length (rectypes (spec st)) = 0
                     then (spec st)\<lparr>rectypes := [KInt 0]\<rparr> else spec st)\<lparr>vars := vs'\<rparr>"
    by (auto simp: get_varspec_def Let_def split: sum.splits)
  have inv: "varspec_inv st" by (rule varspec_loop_inv [OF varspec_inv_init loop])
  have lay: "same_layout vs' (vars (spec st))"
    using label_loop_layout [OF lab] by (simp split: if_splits)
  have mx: "mixed vsp = mixed (spec st)" by (simp add: vsp)
  have vs: "vars vsp = vs'" by (simp add: vsp)
  have sub: "set (rectypes (spec st)) \<subseteq> set (rectypes vsp)" by (auto simp: vsp)
  have "\<forall>v \<in> set (vars (spec st)). var_ok (rectypes vsp) v"
    using inv sub by (auto simp: varspec_inv_def intro: var_ok_mono)
  from same_layout_var_ok [OF lay this]
  show "\<forall>v \<in> set (vars vsp). var_ok (rectypes vsp) v" by (simp add: vs)
  show "\<forall>v \<in> set (vars vsp). rectype v \<noteq> None" if m: "mixed vsp"
  proof -
    have "\<forall>v \<in> set (vars (spec st)). rectype v \<noteq> None"
      using inv m mx by (simp add: varspec_inv_def)
    then have "None \<notin> set (map rectype (vars (spec st)))" by auto
    then have "None \<notin> set (map rectype vs')" using same_layout_nth(2) [OF lay] by simp
    then show ?thesis by (metis vs image_eqI set_map)
  qed
  show "rectypes vsp = [KInt 0]" if "\<not> mixed vsp"
    using inv that mx by (simp add: varspec_inv_def vsp)
  show "rectypes vsp = [KInt 0] \<or> (\<forall>k \<in> set (rectypes vsp). \<exists>r. k = KStr r)"
    using inv by (auto simp: varspec_inv_def vsp)
qed

lemma flat_parse: "get_varspec flat_src = Inr flat_spec"
  by code_simp

lemma hier_parse: "get_varspec hier_src = Inr hier_spec"
  by code_simp

text \<open>
  C2. For every syntax file that \<open>get_varspec\<close> accepts: if the layout is flat (\<open>mixed\<close>
  is false), the record types are exactly the one placeholder key 0 and no variable has
  a record type; if the layout is hierarchical (\<open>mixed\<close> is true), every variable has a
  record type and it is a key of the record types.
\<close>
theorem get_varspec_record_types:
  assumes "get_varspec src = Inr vsp"
  shows "(\<not> mixed vsp \<longrightarrow>
            rectypes vsp = [KInt 0] \<and> (\<forall>v \<in> set (vars vsp). rectype v = None)) \<and>
         (mixed vsp \<longrightarrow>
            (\<forall>v \<in> set (vars vsp). \<exists>r. rectype v = Some r \<and> KStr r \<in> set (rectypes vsp)))"
proof -
  note f = get_varspec_facts [OF assms]
  have flat: "rectypes vsp = [KInt 0] \<and> (\<forall>v \<in> set (vars vsp). rectype v = None)"
    if nm: "\<not> mixed vsp"
  proof -
    have r: "rectypes vsp = [KInt 0]" using f(3) nm by simp
    have "rectype v = None" if "v \<in> set (vars vsp)" for v
    proof (cases "rectype v")
      case None
      then show ?thesis .
    next
      case (Some r')
      have "var_ok (rectypes vsp) v" using f(1) that by blast
      then show ?thesis using Some r by (simp add: var_ok_def)
    qed
    then show ?thesis using r by blast
  qed
  have hier: "\<exists>r. rectype v = Some r \<and> KStr r \<in> set (rectypes vsp)"
    if m: "mixed vsp" and v: "v \<in> set (vars vsp)" for v
  proof -
    from f(2) [OF m] v obtain r where r: "rectype v = Some r" by auto
    have "var_ok (rectypes vsp) v" using f(1) v by blast
    then show ?thesis using r by (simp add: var_ok_def)
  qed
  show ?thesis using flat hier by blast
qed

theorem get_varspec_record_types_witness:
  "get_varspec flat_src = Inr flat_spec \<and> \<not> mixed flat_spec \<and>
   rectypes flat_spec = [KInt 0] \<and> map rectype (vars flat_spec) = [None, None, None] \<and>
   get_varspec hier_src = Inr hier_spec \<and> mixed hier_spec \<and>
   map rectype (vars hier_spec) = [Some ''H'', Some ''P'', Some ''P''] \<and>
   rectypes hier_spec = [KStr ''H'', KStr ''P'']"
  using get_varspec_record_types [OF flat_parse] get_varspec_record_types [OF hier_parse]
    flat_parse hier_parse
  by (simp add: flat_spec_def hier_spec_def)

section \<open>The transcoder\<close>

lemma get_field_ok:
  assumes "var_ok ks v"
  shows "get_field v line = Inr (field_text line v)"
  using assms
  by (auto simp: var_ok_def get_field_def field_text_def py_int_digits Let_def split: option.splits)

lemma get_rec_parsed:
  assumes "\<forall>v \<in> set vs. var_ok ks v" and "mx \<longrightarrow> (\<forall>v \<in> set vs. rectype v \<noteq> None)"
  shows "get_rec mx rt line vs rec = Inr (rec @ map (field_text line) (filter (selected mx rt) vs))"
  using assms
proof (induction vs arbitrary: rec)
  case Nil
  show ?case by simp
next
  case (Cons v vs)
  have f: "get_field v line = Inr (field_text line v)"
    using Cons.prems(1) get_field_ok [of ks v line] by simp
  have ih: "get_rec mx rt line vs r = Inr (r @ map (field_text line) (filter (selected mx rt) vs))" for r
    using Cons.IH Cons.prems by simp
  show ?case
  proof (cases mx)
    case False
    then have sv: "selected mx rt v" by (simp add: selected_def)
    show ?thesis using False sv ih [of "rec @ [field_text line v]"] by (simp add: f)
  next
    case True
    then obtain r where r: "rectype v = Some r" using Cons.prems(2) by auto
    have sv: "selected mx rt v = (KStr r = rt)" using True r by (simp add: selected_def)
    show ?thesis using True r sv ih [of "rec @ [field_text line v]"] ih [of rec]
      by (simp add: f)
  qed
qed

lemma open_outfiles_dom:
  assumes "open_outfiles mx outfile ks st = Inr st'"
  shows "dom (fout st') = dom (fout st) \<union> set ks \<and> dom (nout st') = dom (nout st) \<union> set ks \<and>
         nread st' = nread st"
  using assms
proof (induction ks arbitrary: st)
  case Nil
  then show ?case by simp
next
  case (Cons k ks)
  show ?case
  proof (cases mx)
    case False
    then show ?thesis using Cons.prems Cons.IH [of "st\<lparr>fnames := (fnames st)(k \<mapsto> outfile),
               fout := (fout st)(k \<mapsto> []), nout := (nout st)(k \<mapsto> 0)\<rparr>"]
      by auto
  next
    case True
    then obtain r where r: "k = KStr r" using Cons.prems by (cases k) auto
    show ?thesis using True r Cons.prems
        Cons.IH [of "st\<lparr>fnames := (fnames st)(k \<mapsto> fst (splitext outfile) @ ''_'' @ r @ snd (splitext outfile)),
                    fout := (fout st)(k \<mapsto> []), nout := (nout st)(k \<mapsto> 0)\<rparr>"]
      by auto
  qed
qed


lemma open_outfiles_succeeds:
  assumes "mx \<longrightarrow> (\<forall>k \<in> set ks. \<exists>r. k = KStr r)"
  shows "\<exists>st'. open_outfiles mx outfile ks st = Inr st'"
  using assms
proof (induction ks arbitrary: st)
  case Nil
  show ?case by simp
next
  case (Cons k ks)
  show ?case
  proof (cases mx)
    case False
    then show ?thesis using Cons.IH by simp
  next
    case True
    then obtain r where r: "k = KStr r" using Cons.prems by auto
    show ?thesis using True r Cons.IH Cons.prems by simp
  qed
qed










text \<open>
  C10. In a hierarchical run, a line whose stripped record-type slice is not a key of
  the declared record types is not survived: in any state of the main loop whose output
  files are those of the declared record types, the line ends in the uncaught
  \<open>KeyError\<close> of the lookup \<open>fout[rectype]\<close>, and so does the loop; nothing is written
  and the line is not skipped. The run as a whole ends the same way when some record
  type was declared (with none declared, the placeholder key already fails when the
  output files are opened).
\<close>
theorem undeclared_record_type_key_error:
  assumes "get_varspec src = Inr vsp" and "mixed vsp"
    and "line_rectype vsp line = Inr rt" and "rt \<notin> set (rectypes vsp)"
  shows "(\<forall>st. dom (fout st) = set (rectypes vsp) \<longrightarrow>
            save_data_line vsp st line = Inl KeyError \<and>
            save_data_loop vsp maxrows st (line # fin) = Inl KeyError) \<and>
         (rectypes vsp \<noteq> [KInt 0] \<longrightarrow>
            save_data vsp (line # fin) outfile maxrows = Inl KeyError)"
proof -
  note f = get_varspec_facts [OF assms(1)]
  have rec: "get_rec (mixed vsp) rt line (vars vsp) [] =
             Inr ([] @ map (field_text line) (filter (selected (mixed vsp) rt) (vars vsp)))"
    by (rule get_rec_parsed) (use f assms(2) in auto)
  have line: "save_data_line vsp st line = Inl KeyError"
    if "dom (fout st) = set (rectypes vsp)" for st
  proof -
    have "fout st rt = None" using that assms(4) by auto
    then show ?thesis using assms(3) rec by (simp add: save_data_line_def)
  qed
  have run: "save_data vsp (line # fin) outfile maxrows = Inl KeyError"
    if ne: "rectypes vsp \<noteq> [KInt 0]"
  proof -
    have "\<forall>k \<in> set (rectypes vsp). \<exists>r. k = KStr r" using f(4) ne by blast
    then obtain st1 where o: "open_outfiles (mixed vsp) outfile (rectypes vsp)
        \<lparr>fnames = Map.empty, fout = Map.empty, nout = Map.empty, nread = 0\<rparr> = Inr st1"
      using open_outfiles_succeeds by blast
    have "dom (fout st1) = set (rectypes vsp)" using open_outfiles_dom [OF o] by simp
    from line [OF this] show ?thesis using o by (simp add: save_data_def)
  qed
  show ?thesis using line run by simp
qed

theorem undeclared_record_type_key_error_witness:
  "get_varspec hier_src = Inr hier_spec \<and> mixed hier_spec \<and>
   line_rectype hier_spec bad_line = Inr (KStr ''Q'') \<and>
   KStr ''Q'' \<notin> set (rectypes hier_spec) \<and> rectypes hier_spec \<noteq> [KInt 0] \<and>
   save_data hier_spec [bad_line] ''out.txt'' (PInt 0) = Inl KeyError"
proof -
  have m: "mixed hier_spec" by (simp add: hier_spec_def)
  have l: "line_rectype hier_spec bad_line = Inr (KStr ''Q'')" by code_simp
  have n: "KStr ''Q'' \<notin> set (rectypes hier_spec)" by (simp add: hier_spec_def)
  have r: "rectypes hier_spec \<noteq> [KInt 0]" by (simp add: hier_spec_def)
  from undeclared_record_type_key_error [OF hier_parse m l n, of "PInt 0" "[]" "''out.txt''"]
  show ?thesis using hier_parse m l n r by simp
qed

section \<open>Value labels\<close>

lemma lit_hd: "lit [c] s = Some r \<Longrightarrow> s \<noteq> [] \<and> hd s = c"
  by (cases s) (auto simp: lit_def split: if_splits)

lemma re_continuation_excludes:
  assumes "re_continuation line = Some frag"
  shows "\<not> re_period line \<and> re_slash_name line = None"
proof -
  from assms obtain r where "lit ''+'' (dropWhile is_space line) = Some r"
    by (auto simp: re_continuation_def split: option.splits)
  from lit_hd [OF this] obtain t where t: "dropWhile is_space line = CHR ''+'' # t"
    by (cases "dropWhile is_space line") auto
  show ?thesis by (simp add: re_period_def re_slash_name_def t lit_def)
qed

text \<open>
  C8. While collecting (status 1), a line that matches the continuation pattern, a \<open>+\<close>
  followed by a quoted fragment, appends the fragment to the label of the last triple
  of \<open>valspec\<close>; when \<open>valspec\<close> is still empty the step, and with it the whole parse,
  ends in the uncaught \<open>IndexError\<close> of \<open>valspec[-1]\<close>, the fatal parse error of the
  claim, and no triple is produced.
\<close>
theorem continuation_line:
  assumes "vstatus st = 1" and "re_continuation line = Some frag"
  shows "(valspec st = [] \<longrightarrow>
            valuelabels_step st line = Inl IndexError \<and>
            valuelabels_loop st (line # src) = Inl IndexError) \<and>
         (\<forall>vs vn value lab. valspec st = vs @ [(vn, value, lab)] \<longrightarrow>
            valuelabels_step st line = Inr (st\<lparr>valspec := vs @ [(vn, value, lab @ frag)]\<rparr>))"
  using assms re_continuation_excludes [OF assms(2)]
  by (auto simp: valuelabels_step_def)

theorem continuation_line_witness:
  "re_continuation cont_line = Some ''sir'' \<and>
   valuelabels_step \<lparr>vstatus = 1, valspec = [], varname = Some ''V1''\<rparr> cont_line = Inl IndexError \<and>
   get_valuelabels [''value labels'' @ [NL], '' /V1'' @ [NL], cont_line] = Inl IndexError \<and>
   valuelabels_step \<lparr>vstatus = 1, valspec = [(''V1'', ''1'', ''Yes'')], varname = Some ''V1''\<rparr> cont_line =
     Inr \<lparr>vstatus = 1, valspec = [(''V1'', ''1'', ''Yessir'')], varname = Some ''V1''\<rparr>"
proof -
  have c: "re_continuation cont_line = Some ''sir''" by code_simp
  have g: "get_valuelabels [''value labels'' @ [NL], '' /V1'' @ [NL], cont_line] = Inl IndexError"
    by code_simp
  from continuation_line [OF _ c, of "\<lparr>vstatus = 1, valspec = [], varname = Some ''V1''\<rparr>" "[]"]
       continuation_line [OF _ c, of "\<lparr>vstatus = 1, valspec = [(''V1'', ''1'', ''Yes'')], varname = Some ''V1''\<rparr>" "[]"]
  show ?thesis using c g by simp
qed

section \<open>The command line\<close>

text \<open>
  C5. The claim is that every mode run with fewer arguments than it needs reports a
  usage error. The only check is \<open>len(sys.argv) < 3\<close>: it covers a missing syntax file
  (the last conjunct). With the syntax file present, \<open>vars\<close> and \<open>vals\<close> without the
  output file and \<open>data\<close> without the data file or the output file parse the syntax
  file and then end in the uncaught \<open>IndexError\<close> of \<open>sys.argv[3]\<close> or \<open>sys.argv[4]\<close>;
  the message \<open>youfail\<close> is not printed.
\<close>
theorem missing_output_argument:
  "main one_file [''ipums_data_prep.py'', ''vars'', ''ipums.sps''] = Uncaught IndexError \<and>
   main one_file [''ipums_data_prep.py'', ''vals'', ''ipums.sps''] = Uncaught IndexError \<and>
   main one_file [''ipums_data_prep.py'', ''data'', ''ipums.sps''] = Uncaught IndexError \<and>
   main one_file [''ipums_data_prep.py'', ''data'', ''ipums.sps'', ''data.gz''] = Uncaught IndexError \<and>
   main one_file [''ipums_data_prep.py'', ''ddl''] = Youfail"
proof -
  have v: "get_valuelabels flat_src = Inr []" by code_simp
  show ?thesis by (simp add: main_def one_file_def flat_parse v)
qed

section \<open>Declaration order\<close>

lemma ddl_column_ok:
  assumes "var_ok ks v"
  shows "ddl_column v = Inr (column_text v)"
  using assms
  by (simp add: var_ok_def ddl_column_def column_text_def py_int_digits Let_def)

lemma chop2_append:
  assumes "2 \<le> length b"
  shows "chop2 (a @ b) = a @ chop2 b"
proof -
  have "nat (int (length a) + int (length b) - 2) = length a + (length b - 2)"
    using assms by linarith
  moreover have "nat (int (length b) - 2) = length b - 2" by linarith
  ultimately show ?thesis using assms by (simp add: chop2_def py_slice_def clamp_index_def)
qed

lemma length_column_text: "2 \<le> length (column_text v)"
  by (simp add: column_text_def Let_def)

lemma length_columns:
  assumes "g \<noteq> []"
  shows "2 \<le> length (concat (map column_text g))"
proof (cases g)
  case Nil
  then show ?thesis using assms by simp
next
  case (Cons v vs)
  then show ?thesis using length_column_text [of v] by simp
qed

lemma concat_runs_from: "concat (map snd (runs_from r g vs)) = g @ vs"
  by (induction vs arbitrary: r g) simp_all

lemma concat_runs: "concat (map snd (runs vs)) = vs"
  by (cases vs) (simp_all add: runs_def concat_runs_from)

lemma ddl_loop_runs:
  assumes "\<forall>v \<in> set vs. var_ok ks v" and "g \<noteq> []"
    and "cur = None \<longrightarrow> i \<noteq> 0 \<and> (\<forall>v \<in> set vs. rectype v = None)"
    and "cur \<noteq> None \<longrightarrow> (\<forall>v \<in> set vs. rectype v \<noteq> None)"
  shows "\<exists>cur' s'. ddl_loop i vs (cur, pre @ table_open cur @ concat (map column_text g)) = Inr (cur', s') \<and>
           chop2 s' @ [NL] @ '');'' @ [NL] = pre @ concat (map table_text (runs_from cur g vs))"
  using assms
proof (induction vs arbitrary: i cur pre g)
  case Nil
  have "chop2 (pre @ table_open cur @ concat (map column_text g)) =
        pre @ table_open cur @ chop2 (concat (map column_text g))"
    using chop2_append [OF length_columns [OF Nil.prems(2)], of "pre @ table_open cur"] by simp
  then show ?case by (simp add: table_text_def)
next
  case (Cons v vs)
  let ?s = "pre @ table_open cur @ concat (map column_text g)"
  have col: "ddl_column v = Inr (column_text v)"
    using Cons.prems(1) ddl_column_ok [of ks v] by simp
  have rest: "\<forall>v \<in> set vs. var_ok ks v" using Cons.prems(1) by simp
  show ?case
  proof (cases "rectype v = cur")
    case True
    have h: "ddl_header i v (cur, ?s) = (cur, ?s)"
      using True Cons.prems(3) by (cases cur) (simp_all add: ddl_header_def)
    have a3: "cur = None \<longrightarrow> Suc i \<noteq> 0 \<and> (\<forall>v \<in> set vs. rectype v = None)"
      using Cons.prems(3) by simp
    have a4: "cur \<noteq> None \<longrightarrow> (\<forall>v \<in> set vs. rectype v \<noteq> None)"
      using Cons.prems(4) by simp
    from Cons.IH [OF rest _ a3 a4, of "g @ [v]" pre]
    show ?thesis using True col h by simp
  next
    case False
    then obtain r r' where r: "cur = Some r" and r': "rectype v = Some r'" and ne: "r \<noteq> r'"
      using Cons.prems(3,4) by (cases cur; cases "rectype v") auto
    have ch: "chop2 ?s = pre @ table_open cur @ chop2 (concat (map column_text g))"
      using chop2_append [OF length_columns [OF Cons.prems(2)], of "pre @ table_open cur"] by simp
    have "ddl_header i v (cur, ?s) =
            (Some r', chop2 ?s @ [NL] @ '');'' @ [NL] @ table_open (Some r'))"
      using r r' ne by (simp add: ddl_header_def table_open_def)
    then have h: "ddl_header i v (cur, ?s) =
             (Some r', (pre @ table_text (cur, g)) @ table_open (Some r'))"
      by (simp add: ch table_text_def)
    have a4: "Some r' \<noteq> None \<longrightarrow> (\<forall>v \<in> set vs. rectype v \<noteq> None)"
      using Cons.prems(4) r by simp
    from Cons.IH [OF rest _ _ a4, of "[v]" "Suc i" "pre @ table_text (cur, g)"]
    show ?thesis using False col h r' by simp
  qed
qed

lemma get_data_ddl_runs:
  assumes "\<forall>v \<in> set vs. var_ok ks v" and "vs \<noteq> []"
    and "(\<forall>v \<in> set vs. rectype v = None) \<or> (\<forall>v \<in> set vs. rectype v \<noteq> None)"
    and "vars vsp = vs"
  shows "get_data_ddl vsp = Inr (concat (map table_text (runs vs)))"
proof -
  from assms(2) obtain v ws where vs: "vs = v # ws" by (cases vs) auto
  let ?cur = "rectype v"
  have col: "ddl_column v = Inr (column_text v)"
    using assms(1) ddl_column_ok [of ks v] by (simp add: vs)
  have h: "ddl_header 0 v (None, []) = (?cur, table_open ?cur)"
    by (cases "rectype v") (simp_all add: ddl_header_def table_open_def)
  have a1: "\<forall>v \<in> set ws. var_ok ks v" using assms(1) vs by simp
  have a3: "?cur = None \<longrightarrow> Suc 0 \<noteq> 0 \<and> (\<forall>v \<in> set ws. rectype v = None)"
    using assms(3) vs by auto
  have a4: "?cur \<noteq> None \<longrightarrow> (\<forall>v \<in> set ws. rectype v \<noteq> None)"
    using assms(3) vs by auto
  from ddl_loop_runs [OF a1 _ a3 a4, of "[v]" "[]"]
  obtain cur' s' where l: "ddl_loop (Suc 0) ws (?cur, table_open ?cur @ column_text v) = Inr (cur', s')"
    and e: "chop2 s' @ [NL] @ '');'' @ [NL] = concat (map table_text (runs_from ?cur [v] ws))"
    by auto
  show ?thesis using l e col h by (simp add: get_data_ddl_def assms(4) vs runs_def)
qed

lemma save_vars_loop_rows:
  "save_vars_loop vs acc = (fst acc @ map var_row vs, snd acc + length vs)"
  by (induction vs arbitrary: acc) (simp_all add: var_row_def)

lemma varspec_step_vars:
  assumes "varspec_step st line = Inr st'"
  shows "vars (spec st') = vars (spec st) @ declared_here st line"
  using assms
  by (cases "status st")
     (auto simp: varspec_step_def declared_here_def split: if_splits option.splits)

lemma varspec_loop_vars:
  assumes "varspec_loop st src = Inr (st', rest)"
  shows "vars (spec st') = vars (spec st) @ map snd (declarations st i src)"
  using assms
proof (induction src arbitrary: st i)
  case Nil
  then show ?case by simp
next
  case (Cons line src)
  show ?case
  proof (cases "status st = Done")
    case True
    then show ?thesis using Cons.prems by simp
  next
    case False
    then obtain st1 where s1: "varspec_step st line = Inr st1"
      and l1: "varspec_loop st1 src = Inr (st', rest)"
      using Cons.prems by (auto split: sum.splits)
    from Cons.IH [OF l1, of "Suc i"] varspec_step_vars [OF s1]
    show ?thesis using False s1 by (simp add: comp_def)
  qed
qed

lemma declarations_lines:
  assumes "(n, v) \<in> set (declarations st i src)"
  shows "i \<le> n \<and> n < i + length src \<and> re_period (src ! (n - i)) = False \<and>
         (\<exists>g. re_var_decl (src ! (n - i)) = Some g \<and> v = new_var (rectype v) g)"
  using assms
proof (induction src arbitrary: st i)
  case Nil
  then show ?case by simp
next
  case (Cons line src)
  from Cons.prems have nd: "status st \<noteq> Done" by (auto split: if_splits)
  from Cons.prems nd obtain st1 where s1: "varspec_step st line = Inr st1"
    by (cases "varspec_step st line") auto
  from Cons.prems nd s1
  consider (here) "n = i" "v \<in> set (declared_here st line)"
    | (later) "(n, v) \<in> set (declarations st1 (Suc i) src)"
    by auto
  then show ?case
  proof cases
    case here
    from here(2) have dh: "declared_here st line \<noteq> []" by auto
    then have d: "status st = DataList" and p: "re_period line = False"
      by (auto simp: declared_here_def split: if_splits)
    obtain g where g: "re_var_decl line = Some g"
      using dh d p by (cases "re_var_decl line") (auto simp: declared_here_def)
    have v: "v = new_var (thisrec st) g"
      using here(2) d p g by (simp add: declared_here_def)
    have "rectype v = thisrec st" using v by (cases g) (simp add: new_var_def)
    then show ?thesis using here(1) g v p by simp
  next
    case later
    from Cons.IH [OF later] have a: "Suc i \<le> n" "n < Suc i + length src"
      "re_period (src ! (n - Suc i)) = False"
      "\<exists>g. re_var_decl (src ! (n - Suc i)) = Some g \<and> v = new_var (rectype v) g"
      by simp_all
    from a(1) obtain j where j: "n - i = Suc j" "n - Suc i = j" by (cases "n - i") auto
    show ?thesis using a j by simp
  qed
qed

lemma declarations_sorted: "sorted_wrt (<) (map fst (declarations st i src))"
proof (induction src arbitrary: st i)
  case Nil
  show ?case by simp
next
  case (Cons line src)
  show ?case
  proof (cases "status st = Done")
    case True
    then show ?thesis by simp
  next
    case nd: False
    show ?thesis
    proof (cases "varspec_step st line")
      case (Inl e)
      then show ?thesis using nd by simp
    next
      case (Inr st1)
      have one: "length (declared_here st line) \<le> 1"
        by (simp add: declared_here_def split: option.splits)
      have h: "sorted_wrt (<) (map fst (map (\<lambda>v. (i, v)) (declared_here st line)))"
        using one by (cases "declared_here st line") simp_all
      have later: "\<forall>y \<in> set (map fst (declarations st1 (Suc i) src)). i < y"
        using declarations_lines [of _ _ st1 "Suc i" src] by force
      show ?thesis using nd Inr h later Cons.IH [of st1 "Suc i"]
        by (auto simp: sorted_wrt_append)
    qed
  qed
qed

lemma declarations_unlabelled:
  "map (\<lambda>v. v\<lparr>label := None\<rparr>) (map snd (declarations st i src)) = map snd (declarations st i src)"
proof -
  have "v\<lparr>label := None\<rparr> = v" if "(n, v) \<in> set (declarations st i src)" for n v
  proof -
    from declarations_lines [OF that] obtain g where v: "v = new_var (rectype v) g" by blast
    have "label (new_var (rectype v) g) = None" by (cases g) (simp add: new_var_def)
    then have "label v = None" using v by simp
    then show ?thesis by simp
  qed
  then show ?thesis by (auto intro!: map_idI)
qed

lemma get_varspec_declarations:
  assumes "get_varspec src = Inr vsp"
  shows "map (\<lambda>v. v\<lparr>label := None\<rparr>) (vars vsp) = map snd (declarations init_pstate 0 src)"
proof -
  from assms obtain st rest vs' where
    loop: "varspec_loop init_pstate src = Inr (st, rest)"
    and lab: "label_loop (LWait, vars (if length (rectypes (spec st)) = 0
                     then (spec st)\<lparr>rectypes := [KInt 0]\<rparr> else spec st)) rest = Inr vs'"
    and vsp: "vsp = (if length (rectypes (spec st)) = 0
                     then (spec st)\<lparr>rectypes := [KInt 0]\<rparr> else spec st)\<lparr>vars := vs'\<rparr>"
    by (auto simp: get_varspec_def Let_def split: sum.splits)
  let ?erase = "\<lambda>v::var. v\<lparr>label := None\<rparr>"
  have "same_layout vs' (vars (spec st))"
    using label_loop_layout [OF lab] by (simp split: if_splits)
  then have a: "map ?erase vs' = map ?erase (vars (spec st))"
    by (simp add: same_layout_def)
  have b: "vars (spec st) = map snd (declarations init_pstate 0 src)"
    using varspec_loop_vars [OF loop, of 0] by (simp add: init_pstate_def)
  have c: "vars vsp = vs'" by (simp add: vsp)
  have "map ?erase (vars vsp) = map ?erase (map snd (declarations init_pstate 0 src))"
    by (simp only: a b c)
  also have "\<dots> = map snd (declarations init_pstate 0 src)"
    by (rule declarations_unlabelled)
  finally show ?thesis .
qed

text \<open>
  C6. For every specification that \<open>get_varspec\<close> returns from a syntax file \<open>src\<close>, the
  list \<open>vars\<close> is, up to the labels attached later, the list of the declarations of
  \<open>src\<close> in file order: their line numbers are strictly increasing and each is a line
  of \<open>src\<close> that matches the declaration pattern and gives the variable. Every consumer
  keeps that order: the DDL text is the \<open>create table\<close> statements of the runs of equal
  record type, which concatenate to \<open>vars\<close>, each listing the columns of its variables
  in order; \<open>save_vars\<close> writes one row per variable in order; and the record written
  for a line is the join of the fields of the variables of the line's record type (all
  variables when flat), in order.
\<close>
theorem declaration_order_preserved:
  assumes "get_varspec src = Inr vsp"
  shows "map (\<lambda>v. v\<lparr>label := None\<rparr>) (vars vsp) = map snd (declarations init_pstate 0 src) \<and>
         sorted_wrt (<) (map fst (declarations init_pstate 0 src)) \<and>
         (\<forall>(n, v) \<in> set (declarations init_pstate 0 src).
            n < length src \<and> re_period (src ! n) = False \<and>
            (\<exists>g. re_var_decl (src ! n) = Some g \<and> v = new_var (rectype v) g)) \<and>
         (vars vsp \<noteq> [] \<longrightarrow>
            get_data_ddl vsp = Inr (concat (map table_text (runs (vars vsp)))) \<and>
            concat (map snd (runs (vars vsp))) = vars vsp) \<and>
         save_vars vsp = (map var_row (vars vsp), length (vars vsp)) \<and>
         (\<forall>st line rt f k.
            line_rectype vsp line = Inr rt \<and> fout st rt = Some f \<and> nout st rt = Some k \<longrightarrow>
            save_data_line vsp st line =
              Inr (st\<lparr>fout := (fout st)(rt \<mapsto> f @
                          [join [TAB] (map (field_text line)
                             (filter (selected (mixed vsp) rt) (vars vsp))) @ [NL]]),
                      nout := (nout st)(rt \<mapsto> k + 1), nread := nread st + 1\<rparr>))"
proof -
  note f = get_varspec_facts [OF assms]
  have uni: "(\<forall>v \<in> set (vars vsp). rectype v = None) \<or> (\<forall>v \<in> set (vars vsp). rectype v \<noteq> None)"
  proof (cases "mixed vsp")
    case True
    then show ?thesis using f(2) by simp
  next
    case False
    then have "rectypes vsp = [KInt 0]" using f(3) by simp
    then have "\<forall>v \<in> set (vars vsp). rectype v = None"
      using f(1) by (auto simp: var_ok_def)
    then show ?thesis by simp
  qed
  have ddl: "get_data_ddl vsp = Inr (concat (map table_text (runs (vars vsp))))"
    if "vars vsp \<noteq> []"
    by (rule get_data_ddl_runs [OF f(1) that uni]) simp
  have rows: "save_vars vsp = (map var_row (vars vsp), length (vars vsp))"
    by (simp add: save_vars_def save_vars_loop_rows)
  have rec: "get_rec (mixed vsp) rt line (vars vsp) [] =
             Inr ([] @ map (field_text line) (filter (selected (mixed vsp) rt) (vars vsp)))"
    for rt line
    by (rule get_rec_parsed) (use f in auto)
  have consumers:
    "(vars vsp \<noteq> [] \<longrightarrow>
        get_data_ddl vsp = Inr (concat (map table_text (runs (vars vsp)))) \<and>
        concat (map snd (runs (vars vsp))) = vars vsp) \<and>
     save_vars vsp = (map var_row (vars vsp), length (vars vsp)) \<and>
     (\<forall>st line rt f k.
        line_rectype vsp line = Inr rt \<and> fout st rt = Some f \<and> nout st rt = Some k \<longrightarrow>
        save_data_line vsp st line =
          Inr (st\<lparr>fout := (fout st)(rt \<mapsto> f @
                      [join [TAB] (map (field_text line)
                         (filter (selected (mixed vsp) rt) (vars vsp))) @ [NL]]),
                  nout := (nout st)(rt \<mapsto> k + 1), nread := nread st + 1\<rparr>))"
    using ddl rows rec by (simp add: concat_runs save_data_line_def)
  have order: "map (\<lambda>v. v\<lparr>label := None\<rparr>) (vars vsp) = map snd (declarations init_pstate 0 src)"
    by (rule get_varspec_declarations [OF assms])
  have incr: "sorted_wrt (<) (map fst (declarations init_pstate 0 src))"
    by (rule declarations_sorted)
  have lines: "\<forall>(n, v) \<in> set (declarations init_pstate 0 src).
            n < length src \<and> re_period (src ! n) = False \<and>
            (\<exists>g. re_var_decl (src ! n) = Some g \<and> v = new_var (rectype v) g)"
    using declarations_lines [of _ _ init_pstate 0 src] by auto
  show ?thesis
    by (rule conjI [OF order conjI [OF incr conjI [OF lines consumers]]])
qed

theorem declaration_order_preserved_witness:
  "get_varspec hier_src = Inr hier_spec \<and> vars hier_spec \<noteq> [] \<and>
   map (\<lambda>d. (fst d, name (snd d))) (declarations init_pstate 0 hier_src) =
     [(4, ''HID''), (8, ''PID''), (9, ''INC'')] \<and>
   map (\<lambda>v. v\<lparr>label := None\<rparr>) (vars hier_spec) = map snd (declarations init_pstate 0 hier_src) \<and>
   map name (vars hier_spec) = [''HID'', ''PID'', ''INC''] \<and>
   get_data_ddl hier_spec = Inr (concat (map table_text (runs (vars hier_spec)))) \<and>
   map (\<lambda>g. (fst g, map name (snd g))) (runs (vars hier_spec)) =
     [(Some ''H'', [''HID'']), (Some ''P'', [''PID'', ''INC''])] \<and>
   save_vars hier_spec = ([''HID'' @ [TAB, NL], ''PID'' @ [TAB, NL], ''INC'' @ [TAB, NL]], 3) \<and>
   line_rectype hier_spec p_line = Inr (KStr ''P'') \<and>
   (\<exists>st'. save_data_line hier_spec open_state p_line = Inr st' \<and>
          fout st' (KStr ''P'') = Some [''12'' @ [TAB] @ ''001.23'' @ [NL]])"
proof -
  note t = declaration_order_preserved [OF hier_parse]
  have ne: "vars hier_spec \<noteq> []" by (simp add: hier_spec_def)
  have nm: "map name (vars hier_spec) = [''HID'', ''PID'', ''INC'']"
    by (simp add: hier_spec_def)
  have rn: "map (\<lambda>g. (fst g, map name (snd g))) (runs (vars hier_spec)) =
            [(Some ''H'', [''HID'']), (Some ''P'', [''PID'', ''INC''])]"
    by (simp add: hier_spec_def runs_def)
  have rows: "map var_row (vars hier_spec) =
              [''HID'' @ [TAB, NL], ''PID'' @ [TAB, NL], ''INC'' @ [TAB, NL]]"
    by (simp add: hier_spec_def var_row_def)
  have rt: "line_rectype hier_spec p_line = Inr (KStr ''P'')" by code_simp
  have f: "fout open_state (KStr ''P'') = Some []" and k: "nout open_state (KStr ''P'') = Some 0"
    by (simp_all add: open_state_def)
  have j: "join [TAB] (map (field_text p_line)
             (filter (selected (mixed hier_spec) (KStr ''P'')) (vars hier_spec))) =
           ''12'' @ [TAB] @ ''001.23''"
    by code_simp
  from t rt f k have "save_data_line hier_spec open_state p_line =
      Inr (open_state\<lparr>fout := (fout open_state)(KStr ''P'' \<mapsto> [] @
             [join [TAB] (map (field_text p_line)
                (filter (selected (mixed hier_spec) (KStr ''P'')) (vars hier_spec))) @ [NL]]),
           nout := (nout open_state)(KStr ''P'' \<mapsto> 0 + 1), nread := nread open_state + 1\<rparr>)"
    by blast
  then have "\<exists>st'. save_data_line hier_spec open_state p_line = Inr st' \<and>
          fout st' (KStr ''P'') = Some [''12'' @ [TAB] @ ''001.23'' @ [NL]]"
    by (simp add: j)
  moreover have "length (vars hier_spec) = 3" by (simp add: hier_spec_def)
  moreover have "map (\<lambda>d. (fst d, name (snd d))) (declarations init_pstate 0 hier_src) =
     [(4, ''HID''), (8, ''PID''), (9, ''INC'')]"
    by code_simp
  ultimately show ?thesis using t ne nm rn rows rt hier_parse by simp
qed

end
